theory Spec2Isabelle
  imports Complex_Main "HOL-Library.Word" "HOL-Library.Sublist"
begin

section \<open>Text: characters, case folding, regular expressions\<close>

text \<open>
  A Python \<open>str\<close> is modelled as a \<open>string\<close>, each \<open>char\<close> read as the code point of
  that number (so the model covers text over the code points below 256). Scores are
  Python floats in the source; they are modelled as exact reals.
\<close>

definition code_point :: "char \<Rightarrow> nat" where
  "code_point c = of_char c"

text \<open>The character classes \<open>[A-Z]\<close>, \<open>[a-z]\<close>, \<open>[0-9]\<close> and \<open>[a-zA-Z0-9]\<close>.\<close>

definition is_upper :: "char \<Rightarrow> bool" where
  "is_upper c = (65 \<le> code_point c \<and> code_point c \<le> 90)"

definition is_lower :: "char \<Rightarrow> bool" where
  "is_lower c = (97 \<le> code_point c \<and> code_point c \<le> 122)"

definition is_digit :: "char \<Rightarrow> bool" where
  "is_digit c = (48 \<le> code_point c \<and> code_point c \<le> 57)"

definition is_ascii_alnum :: "char \<Rightarrow> bool" where
  "is_ascii_alnum c = (is_upper c \<or> is_lower c \<or> is_digit c)"

text \<open>
  \<open>\w\<close> in a \<open>str\<close> pattern: the ASCII letters and digits, the underscore, and every
  other code point that \<open>str.isalnum\<close> accepts (below 256: the ordinal indicators, the
  superscript digits, the micro sign, the vulgar fractions and the accented letters).
\<close>

definition is_word :: "char \<Rightarrow> bool" where
  "is_word c =
     (let n = code_point c in
      is_ascii_alnum c \<or> c = CHR ''_'' \<or>
      n \<in> {170, 178, 179, 181, 185, 186, 188, 189, 190} \<or>
      (192 \<le> n \<and> n \<le> 214) \<or> (216 \<le> n \<and> n \<le> 246) \<or> 248 \<le> n)"

text \<open>\<open>str.lower\<close>: \<open>A\<close>..\<open>Z\<close> and the accented capitals move up by 32.\<close>

definition lower_char :: "char \<Rightarrow> char" where
  "lower_char c =
     (let n = code_point c in
      if is_upper c \<or> (192 \<le> n \<and> n \<le> 222 \<and> n \<noteq> 215) then char_of (n + 32) else c)"

definition lower :: "string \<Rightarrow> string" where
  "lower s = map lower_char s"

text \<open>\<open>str.strip()\<close> removes leading and trailing white space (\<open>str.isspace\<close>).\<close>

definition is_space :: "char \<Rightarrow> bool" where
  "is_space c =
     (let n = code_point c in (9 \<le> n \<and> n \<le> 13) \<or> (28 \<le> n \<and> n \<le> 32) \<or> n = 133 \<or> n = 160)"

definition strip :: "string \<Rightarrow> string" where
  "strip s = rev (dropWhile is_space (rev (dropWhile is_space s)))"

text \<open>\<open>a in b\<close> on strings: \<open>a\<close> occurs in \<open>b\<close> as a contiguous substring.\<close>

definition str_in :: "string \<Rightarrow> string \<Rightarrow> bool" where
  "str_in a b = sublist a b"

subsection \<open>The three name patterns\<close>

text \<open>
  \<open>re.compile(r'(\w+)').findall(text)\<close>: the maximal runs of word characters, from left
  to right.
\<close>

function findall_word :: "string \<Rightarrow> string list" where
  "findall_word [] = []"
| "findall_word (c # cs) =
     (if is_word c then takeWhile is_word (c # cs) # findall_word (dropWhile is_word cs)
      else findall_word cs)"
  by pat_completeness auto
termination
  by (relation "measure length") (auto simp: le_imp_less_Suc length_dropWhile_le)

text \<open>
  \<open>re.compile(r'([A-Z][a-z]+|[A-Z]+(?![a-z]))').findall(text)\<close>. At a capital, the first
  alternative takes the capital and the lower-case letters after it when there is at
  least one. Otherwise the second takes the whole run of capitals, and gives the last
  one back when a lower-case letter follows the run (the lookahead). The scan goes on
  after the match, or one character further when there is none.
\<close>

function findall_camel :: "string \<Rightarrow> string list" where
  "findall_camel [] = []"
| "findall_camel (c # cs) =
     (if \<not> is_upper c then findall_camel cs
      else if takeWhile is_lower cs \<noteq> [] then
        (c # takeWhile is_lower cs) # findall_camel (dropWhile is_lower cs)
      else if takeWhile is_lower (dropWhile is_upper cs) \<noteq> [] then
        (c # butlast (takeWhile is_upper cs))
          # findall_camel (last (takeWhile is_upper cs) # dropWhile is_upper cs)
      else (c # takeWhile is_upper cs) # findall_camel (dropWhile is_upper cs))"
  by pat_completeness auto
termination
proof (relation "measure length", goal_cases)
  case 1
  show ?case by simp
next
  case (2 c cs)
  show ?case by simp
next
  case (3 c cs)
  show ?case by (simp add: le_imp_less_Suc length_dropWhile_le)
next
  case (4 c cs)
  have "takeWhile is_upper cs \<noteq> []"
  proof
    assume "takeWhile is_upper cs = []"
    then have "dropWhile is_upper cs = cs"
      by (metis append_Nil takeWhile_dropWhile_id)
    with 4 show False by simp
  qed
  then have "0 < length (takeWhile is_upper cs)" by simp
  moreover have "length (takeWhile is_upper cs) + length (dropWhile is_upper cs) = length cs"
    by (metis length_append takeWhile_dropWhile_id)
  ultimately show ?case by (simp del: length_0_conv length_greater_0_conv)
next
  case (5 c cs)
  show ?case by (simp add: le_imp_less_Suc length_dropWhile_le)
qed

text \<open>
  \<open>re.compile(r'(\w+)(?:_|-)(\w+)').findall(text)\<close>: with two groups, \<open>findall\<close> returns
  a list of pairs. At a word character the first group is greedy: it takes the whole
  run \<open>run\<close> of word characters, and the match succeeds when a hyphen and a word
  character follow the run. Otherwise the group backtracks to the last underscore of
  the run that has a character of the run on both sides (\<open>snake_split\<close>). The scan goes
  on after the match, or one character further when there is none.
\<close>

definition snake_split :: "string \<Rightarrow> (string \<times> string) option" where
  "snake_split run =
     (case find (\<lambda>k. run ! k = CHR ''_'') (rev [1 ..< length run - 1]) of
        None \<Rightarrow> None
      | Some k \<Rightarrow> Some (take k run, drop (Suc k) run))"

definition hyphen_then_word :: "string \<Rightarrow> bool" where
  "hyphen_then_word rest =
     (case rest of sep # d # ds \<Rightarrow> sep = CHR ''-'' \<and> is_word d | _ \<Rightarrow> False)"

function findall_snake :: "string \<Rightarrow> (string \<times> string) list" where
  "findall_snake [] = []"
| "findall_snake (c # cs) =
     (if \<not> is_word c then findall_snake cs
      else if hyphen_then_word (dropWhile is_word cs) then
        (takeWhile is_word (c # cs), takeWhile is_word (tl (dropWhile is_word cs)))
          # findall_snake (dropWhile is_word (tl (dropWhile is_word cs)))
      else
        (case snake_split (takeWhile is_word (c # cs)) of
           Some p \<Rightarrow> p # findall_snake (dropWhile is_word cs)
         | None \<Rightarrow> findall_snake cs))"
  by pat_completeness auto
termination
proof (relation "measure length", goal_cases)
  case (3 c cs)
  have "length (dropWhile is_word (tl (dropWhile is_word cs))) \<le> length (tl (dropWhile is_word cs))"
    by (rule length_dropWhile_le)
  also have "\<dots> \<le> length (dropWhile is_word cs)" by simp
  also have "\<dots> \<le> length cs" by (rule length_dropWhile_le)
  finally show ?case by simp
qed (auto simp: le_imp_less_Suc length_dropWhile_le)


section \<open>Data model\<close>

text \<open>
  The dataclasses of the mapping worker. Fields that the engine never reads (the
  \<open>metadata\<close> of entities and docs) are left out. A heading is a dict read with
  \<open>heading.get("text", "")\<close> and \<open>heading.get("anchor")\<close>: a missing text is the empty
  string, a missing anchor is \<open>None\<close>. The \<open>signature\<close> field holds the
  \<open>"parameters"\<close> entry of the signature dict, and is \<open>None\<close> when the entity has no
  signature or the dict has no such entry: in these cases the source adds nothing to
  the heuristic score (no term, or the term \<open>0.0\<close>) and nothing to the embedded text.
  \<open>headings = None\<close> and \<open>headings = []\<close> are the same empty list, since the source only
  tests \<open>doc.headings\<close> for truth.
\<close>

datatype error = TypeError | ValueError

datatype param = PStr string | POther string
  \<comment> \<open>a parameter descriptor: a \<open>str\<close>, or any other value (with its \<open>str()\<close> rendering)\<close>

record Heading =
  heading_text :: string
  heading_anchor :: "string option"

record CodeEntity =
  ce_id :: string
  ce_project_id :: string
  kind :: string
  name :: string
  ce_path :: string
  lang :: string
  signature :: "param list option"
  ce_embedding :: "real list option"

record DocEntity =
  de_id :: string
  de_project_id :: string
  de_path :: string
  title :: "string option"
  headings :: "Heading list"
  de_embedding :: "real list option"

record EntityMapping =
  mapping_id :: string
  project_id :: string
  entity_id :: string
  doc_id :: string
  anchor :: "string option"
  score :: real
  relation :: string
  confidence :: string
  heuristics_score :: real
  embedding_score :: real
  manual_override :: bool
  metadata :: "string \<times> string \<times> string option"
    \<comment> \<open>\<open>entity_kind\<close>, \<open>entity_lang\<close>, \<open>doc_title\<close>\<close>

record MapRequest =
  req_project_id :: string
  entity_ids :: "string list"
  doc_ids :: "string list"
  use_embeddings :: bool
  use_heuristics :: bool
  min_score_threshold :: real
  max_mappings_per_entity :: int
  request_id :: string

section \<open>HeuristicMatcher\<close>

text \<open>
  An element of the list \<open>words\<close> of \<open>_extract_words\<close>: a string from the first two
  patterns, or a pair of strings from the third.
\<close>

datatype found = Str string | Tup string string

text \<open>
  The cleaning loop of \<open>_extract_words\<close>. \<open>re.sub\<close> raises \<open>TypeError\<close> on a tuple;
  the loop has no handler, so it stops there.
\<close>

definition clean_word :: "string \<Rightarrow> string" where
  "clean_word word = lower (filter is_ascii_alnum word)"

fun clean_words :: "string list \<Rightarrow> found list \<Rightarrow> error + string list" where
  "clean_words cleaned_words [] = Inr cleaned_words"
| "clean_words cleaned_words (Tup a b # words) = Inl TypeError"
| "clean_words cleaned_words (Str w # words) =
     (let word = clean_word w in
      if word \<noteq> [] \<and> length word > 2 then clean_words (cleaned_words @ [word]) words
      else clean_words cleaned_words words)"

text \<open>
  \<open>list(set(cleaned_words))\<close> has no duplicates and an order that Python leaves open;
  every caller turns the result into a set again.
\<close>

definition extract_words :: "string \<Rightarrow> error + string list" where
  "extract_words txt =
     (let words = map Str (findall_word txt) @ map Str (findall_camel txt) @
                  map (\<lambda>(a, b). Tup a b) (findall_snake txt)
      in case clean_words [] words of
           Inl e \<Rightarrow> Inl e
         | Inr cleaned_words \<Rightarrow> Inr (remdups cleaned_words))"

definition calculate_name_similarity :: "string \<Rightarrow> string \<Rightarrow> error + real" where
  "calculate_name_similarity entity_name doc_title =
     (if entity_name = [] \<or> doc_title = [] then Inr 0
      else
        case extract_words (lower entity_name) of
          Inl e \<Rightarrow> Inl e
        | Inr ew \<Rightarrow>
            (case extract_words (lower doc_title) of
               Inl e \<Rightarrow> Inl e
             | Inr tw \<Rightarrow>
                 if set ew = {} then Inr 0
                 else Inr (real (card (set ew \<inter> set tw)) / real (card (set ew)))))"

text \<open>
  \<open>Path(p).parts\<close> of a POSIX path: the root (\<open>//\<close> for exactly two leading slashes,
  \<open>/\<close> for one or for three and more), then the segments between slashes without
  the empty ones and without \<open>.\<close>.
\<close>

fun split_on :: "char \<Rightarrow> string \<Rightarrow> string list" where
  "split_on sep [] = [[]]"
| "split_on sep (c # cs) =
     (if c = sep then [] # split_on sep cs
      else case split_on sep cs of
             s # ss \<Rightarrow> (c # s) # ss
           | [] \<Rightarrow> [[c]])"

definition path_parts :: "string \<Rightarrow> string list" where
  "path_parts p =
     (if take 2 p = ''//'' \<and> take 3 p \<noteq> ''///'' then [''//'']
      else if take 1 p = ''/'' then [''/'']
      else [])
     @ filter (\<lambda>s. s \<noteq> [] \<and> s \<noteq> ''.'') (split_on CHR ''/'' p)"

fun common_parts :: "string list \<Rightarrow> string list \<Rightarrow> nat" where
  "common_parts (entity_part # es) (doc_part # ds) =
     (if entity_part = doc_part then Suc (common_parts es ds) else 0)"
| "common_parts _ _ = 0"

definition calculate_path_similarity :: "string \<Rightarrow> string \<Rightarrow> real" where
  "calculate_path_similarity entity_path doc_path =
     (let entity_parts = path_parts entity_path;
          doc_parts = path_parts doc_path;
          max_parts = max (length entity_parts) (length doc_parts)
      in if max_parts > 0 then real (common_parts entity_parts doc_parts) / real max_parts
         else 0)"

definition param_names :: "param list \<Rightarrow> string list" where
  "param_names params =
     concat (map (\<lambda>p. case p of
                         PStr s \<Rightarrow> [strip (takeWhile (\<lambda>c. c \<noteq> CHR '':'') s)]
                       | POther _ \<Rightarrow> []) params)"

definition calculate_signature_similarity :: "param list option \<Rightarrow> DocEntity \<Rightarrow> real" where
  "calculate_signature_similarity sig doc =
     (let params = (case sig of Some ps \<Rightarrow> ps | None \<Rightarrow> []) in
      if params = [] then 0
      else
        let names = param_names params;
            matches = length (filter (\<lambda>param. \<exists>h \<in> set (headings doc).
                                 str_in (lower param) (lower (heading_text h))) names)
        in if names \<noteq> [] then real matches / real (length names) else 0)"

fun heading_loop :: "string set \<Rightarrow> real \<Rightarrow> Heading list \<Rightarrow> error + real" where
  "heading_loop entity_words max_score [] = Inr max_score"
| "heading_loop entity_words max_score (h # hs) =
     (case extract_words (lower (heading_text h)) of
        Inl e \<Rightarrow> Inl e
      | Inr hw \<Rightarrow>
          if entity_words \<noteq> {} \<and> set hw \<noteq> {} then
            heading_loop entity_words
              (max max_score (real (card (entity_words \<inter> set hw)) / real (card entity_words))) hs
          else heading_loop entity_words max_score hs)"

definition calculate_heading_similarity :: "string \<Rightarrow> Heading list \<Rightarrow> error + real" where
  "calculate_heading_similarity entity_name hs =
     (case extract_words (lower entity_name) of
        Inl e \<Rightarrow> Inl e
      | Inr ew \<Rightarrow> heading_loop (set ew) 0 hs)"

definition weights :: "string \<Rightarrow> real" where
  "weights metric =
     (if metric = ''name'' then 0.4
      else if metric = ''path'' then 0.2
      else if metric = ''signature'' then 0.2
      else if metric = ''heading'' then 0.2
      else 0)"

definition confidence_level :: "real \<Rightarrow> string" where
  "confidence_level total_score =
     (if total_score \<ge> 0.8 then ''high''
      else if total_score \<ge> 0.5 then ''medium''
      else ''low'')"

definition calculate_heuristics_score :: "CodeEntity \<Rightarrow> DocEntity \<Rightarrow> error + (real \<times> string)" where
  "calculate_heuristics_score entity doc =
     (case calculate_name_similarity (name entity)
             (case title doc of Some t \<Rightarrow> t | None \<Rightarrow> []) of
        Inl e \<Rightarrow> Inl e
      | Inr name_score \<Rightarrow>
          let path_score = calculate_path_similarity (ce_path entity) (de_path doc);
              sig_scores =
                (if signature entity \<noteq> None \<and> kind entity \<in> {''function'', ''method''}
                 then [(''signature'', calculate_signature_similarity (signature entity) doc)]
                 else [])
          in
            (case (if headings doc \<noteq> []
                   then (case calculate_heading_similarity (name entity) (headings doc) of
                           Inl e \<Rightarrow> Inl e
                         | Inr heading_score \<Rightarrow> Inr [(''heading'', heading_score)])
                   else Inr []) of
               Inl e \<Rightarrow> Inl e
             | Inr heading_scores \<Rightarrow>
                 let scores = [(''name'', name_score), (''path'', path_score)]
                                @ sig_scores @ heading_scores;
                     total_score = sum_list (map (\<lambda>(metric, sc). sc * weights metric) scores)
                 in Inr (total_score, confidence_level total_score)))"


section \<open>EmbeddingGenerator\<close>

text \<open>
  What the generator takes from outside the repository is a parameter of the model:
  \<open>md5_digest txt k\<close> is byte \<open>k\<close> (of 16) of \<open>hashlib.md5(txt.encode()).digest()\<close>, and
  \<open>openai_reply n txt\<close> is the vector in the reply to the \<open>n\<close>-th request sent to the
  embeddings API, or \<open>None\<close> when that request fails (another status, an exception).
  The cache key is the hex rendering of the digest, modelled by the list of its bytes.
\<close>

record World =
  md5_digest :: "string \<Rightarrow> nat \<Rightarrow> 8 word"
  openai_reply :: "nat \<Rightarrow> string \<Rightarrow> real list option"

record EmbeddingGenerator =
  use_openai :: bool
  embedding_cache :: "8 word list \<rightharpoonup> real list"
  requests :: nat

definition get_cache_key :: "World \<Rightarrow> string \<Rightarrow> 8 word list" where
  "get_cache_key w txt = map (md5_digest w txt) [0 ..< 16]"

definition generate_mock_embedding :: "World \<Rightarrow> string \<Rightarrow> real list" where
  "generate_mock_embedding w txt =
     map (\<lambda>i. real (unat (md5_digest w txt (i mod 16))) / 127.5 - 1) [0 ..< 1536]"

definition generate_openai_embedding ::
    "World \<Rightarrow> EmbeddingGenerator \<Rightarrow> string \<Rightarrow> real list \<times> EmbeddingGenerator" where
  "generate_openai_embedding w g txt =
     (case openai_reply w (requests g) txt of
        Some v \<Rightarrow> v
      | None \<Rightarrow> generate_mock_embedding w txt,
      g\<lparr>requests := Suc (requests g)\<rparr>)"

definition generate_embedding ::
    "World \<Rightarrow> EmbeddingGenerator \<Rightarrow> string \<Rightarrow> real list \<times> EmbeddingGenerator" where
  "generate_embedding w g txt =
     (let cache_key = get_cache_key w txt in
      case embedding_cache g cache_key of
        Some v \<Rightarrow> (v, g)
      | None \<Rightarrow>
          let (embedding, g') =
                (if use_openai g then generate_openai_embedding w g txt
                 else (generate_mock_embedding w txt, g))
          in (embedding, g'\<lparr>embedding_cache := (embedding_cache g')(cache_key \<mapsto> embedding)\<rparr>))"

section \<open>MappingEngine\<close>

fun join :: "string \<Rightarrow> string list \<Rightarrow> string" where
  "join sep [] = []"
| "join sep [x] = x"
| "join sep (x # y # ys) = x @ sep @ join sep (y # ys)"

definition param_str :: "param \<Rightarrow> string" where
  "param_str p = (case p of PStr s \<Rightarrow> s | POther s \<Rightarrow> s)"

definition entity_to_text :: "CodeEntity \<Rightarrow> string" where
  "entity_to_text entity =
     join ''. ''
       ([''Name: '' @ name entity, ''Type: '' @ kind entity,
         ''Language: '' @ lang entity, ''Path: '' @ ce_path entity]
        @ (case signature entity of
             Some params \<Rightarrow> [''Parameters: '' @ join '', '' (map param_str params)]
           | None \<Rightarrow> []))"

definition doc_to_text :: "DocEntity \<Rightarrow> string" where
  "doc_to_text doc =
     join ''. ''
       ([''Title: '' @ (case title doc of
                          Some t \<Rightarrow> if t = [] then ''Untitled'' else t
                        | None \<Rightarrow> ''Untitled''),
         ''Path: '' @ de_path doc]
        @ (if headings doc \<noteq> []
           then [''Headings: '' @ join '', '' (map heading_text (take 5 (headings doc)))]
           else []))"

text \<open>An embedding is missing when it is \<open>None\<close> or an empty list (\<open>not item.embedding\<close>).\<close>

definition vec :: "real list option \<Rightarrow> real list" where
  "vec emb = (case emb of Some v \<Rightarrow> v | None \<Rightarrow> [])"

fun embed_entities ::
    "World \<Rightarrow> EmbeddingGenerator \<Rightarrow> CodeEntity list \<Rightarrow> CodeEntity list \<times> EmbeddingGenerator" where
  "embed_entities w g [] = ([], g)"
| "embed_entities w g (item # items) =
     (if vec (ce_embedding item) = [] then
        let (embedding, g1) = generate_embedding w g (entity_to_text item);
            (items', g2) = embed_entities w g1 items
        in (item\<lparr>ce_embedding := Some embedding\<rparr> # items', g2)
      else
        let (items', g2) = embed_entities w g items in (item # items', g2))"

fun embed_docs ::
    "World \<Rightarrow> EmbeddingGenerator \<Rightarrow> DocEntity list \<Rightarrow> DocEntity list \<times> EmbeddingGenerator" where
  "embed_docs w g [] = ([], g)"
| "embed_docs w g (item # items) =
     (if vec (de_embedding item) = [] then
        let (embedding, g1) = generate_embedding w g (doc_to_text item);
            (items', g2) = embed_docs w g1 items
        in (item\<lparr>de_embedding := Some embedding\<rparr> # items', g2)
      else
        let (items', g2) = embed_docs w g items in (item # items', g2))"

text \<open>
  \<open>_generate_embeddings(entities + docs)\<close> writes the embeddings into the items; the
  model returns the updated lists and the generator.
\<close>

definition generate_embeddings ::
    "World \<Rightarrow> EmbeddingGenerator \<Rightarrow> CodeEntity list \<Rightarrow> DocEntity list
       \<Rightarrow> CodeEntity list \<times> DocEntity list \<times> EmbeddingGenerator" where
  "generate_embeddings w g entities docs =
     (let (entities', g1) = embed_entities w g entities;
          (docs', g2) = embed_docs w g1 docs
      in (entities', docs', g2))"

text \<open>
  \<open>sklearn.metrics.pairwise.cosine_similarity\<close> on two row vectors: each is divided by
  its Euclidean norm (a zero norm counts as 1) and the dot product is returned; vectors
  of different lengths raise \<open>ValueError\<close>. Here the arithmetic is exact; the rounded
  computation is \<open>cosine_similarity_double\<close> below.
\<close>

definition dot :: "real list \<Rightarrow> real list \<Rightarrow> real" where
  "dot a b = sum_list (map (\<lambda>(x, y). x * y) (zip a b))"

definition normalize :: "real list \<Rightarrow> real list" where
  "normalize a = (let n = sqrt (dot a a) in map (\<lambda>x. x / (if n = 0 then 1 else n)) a)"

definition cosine_similarity :: "real list \<Rightarrow> real list \<Rightarrow> error + real" where
  "cosine_similarity a b =
     (if length a \<noteq> length b then Inl ValueError else Inr (dot (normalize a) (normalize b)))"

definition determine_relation :: "real \<Rightarrow> string" where
  "determine_relation sc =
     (if sc \<ge> 0.8 then ''describes''
      else if sc \<ge> 0.5 then ''references''
      else ''mentions'')"

definition find_best_anchor :: "CodeEntity \<Rightarrow> DocEntity \<Rightarrow> string option" where
  "find_best_anchor entity doc =
     (case find (\<lambda>h. str_in (lower (name entity)) (lower (heading_text h))) (headings doc) of
        Some h \<Rightarrow> heading_anchor h
      | None \<Rightarrow> None)"

definition combine_scores :: "MapRequest \<Rightarrow> real \<Rightarrow> real \<Rightarrow> real" where
  "combine_scores request h e =
     (if use_embeddings request \<and> use_heuristics request then h * 0.6 + e * 0.4
      else if use_heuristics request then h
      else if use_embeddings request then e
      else 0)"

definition calculate_mapping_score ::
    "CodeEntity \<Rightarrow> DocEntity \<Rightarrow> MapRequest \<Rightarrow> error + EntityMapping" where
  "calculate_mapping_score entity doc request =
     (case (if use_heuristics request then calculate_heuristics_score entity doc
            else Inr (0, ''low'')) of
        Inl e \<Rightarrow> Inl e
      | Inr (h_score, conf) \<Rightarrow>
          (case (if use_embeddings request \<and> vec (ce_embedding entity) \<noteq> []
                    \<and> vec (de_embedding doc) \<noteq> []
                 then (case cosine_similarity (vec (ce_embedding entity)) (vec (de_embedding doc)) of
                         Inl e \<Rightarrow> Inl e
                       | Inr similarity \<Rightarrow> Inr ((similarity + 1) / 2))
                 else Inr 0) of
             Inl e \<Rightarrow> Inl e
           | Inr e_score \<Rightarrow>
               let combined_score = combine_scores request h_score e_score in
               Inr \<lparr>mapping_id = ce_id entity @ '':'' @ de_id doc,
                    project_id = ce_project_id entity,
                    entity_id = ce_id entity,
                    doc_id = de_id doc,
                    anchor = find_best_anchor entity doc,
                    score = combined_score,
                    relation = determine_relation combined_score,
                    confidence = conf,
                    heuristics_score = h_score,
                    embedding_score = e_score,
                    manual_override = False,
                    metadata = (kind entity, lang entity, title doc)\<rparr>))"

text \<open>
  The loop of \<open>_map_entity_to_docs\<close> over the docs: an exception of one pair leaves the
  loop, and the function, at once.
\<close>

fun candidate_loop ::
    "CodeEntity \<Rightarrow> MapRequest \<Rightarrow> EntityMapping list \<Rightarrow> DocEntity list
       \<Rightarrow> error + EntityMapping list" where
  "candidate_loop entity request candidate_mappings [] = Inr candidate_mappings"
| "candidate_loop entity request candidate_mappings (doc # docs) =
     (case calculate_mapping_score entity doc request of
        Inl e \<Rightarrow> Inl e
      | Inr mapping \<Rightarrow>
          if score mapping \<ge> min_score_threshold request
          then candidate_loop entity request (candidate_mappings @ [mapping]) docs
          else candidate_loop entity request candidate_mappings docs)"

text \<open>
  \<open>list.sort(key=lambda x: x.score, reverse=True)\<close> is a stable sort by descending score;
  \<open>xs[:n]\<close> keeps the first \<open>n\<close> elements, and for a negative \<open>n\<close> drops the last \<open>-n\<close>.
\<close>

definition sort_by_score :: "EntityMapping list \<Rightarrow> EntityMapping list" where
  "sort_by_score ms = sort_key (\<lambda>x. - score x) ms"

definition slice_to :: "'a list \<Rightarrow> int \<Rightarrow> 'a list" where
  "slice_to xs n = (if n \<ge> 0 then take (nat n) xs else take (length xs - nat (- n)) xs)"

definition map_entity_to_docs ::
    "CodeEntity \<Rightarrow> DocEntity list \<Rightarrow> MapRequest \<Rightarrow> error + EntityMapping list" where
  "map_entity_to_docs entity docs request =
     (case candidate_loop entity request [] docs of
        Inl e \<Rightarrow> Inl e
      | Inr candidate_mappings \<Rightarrow>
          Inr (slice_to (sort_by_score candidate_mappings) (max_mappings_per_entity request)))"

text \<open>The loop of \<open>generate_mappings\<close> over the entities, with its \<open>break\<close>.\<close>

fun entity_loop ::
    "MapRequest \<Rightarrow> DocEntity list \<Rightarrow> EntityMapping list \<Rightarrow> CodeEntity list
       \<Rightarrow> error + EntityMapping list" where
  "entity_loop request docs mappings [] = Inr mappings"
| "entity_loop request docs mappings (entity # entities) =
     (case map_entity_to_docs entity docs request of
        Inl e \<Rightarrow> Inl e
      | Inr entity_mappings \<Rightarrow>
          if int (length entity_mappings) \<ge> max_mappings_per_entity request
          then Inr (mappings @ entity_mappings)
          else entity_loop request docs (mappings @ entity_mappings) entities)"

definition generate_mappings ::
    "World \<Rightarrow> EmbeddingGenerator \<Rightarrow> CodeEntity list \<Rightarrow> DocEntity list \<Rightarrow> MapRequest
       \<Rightarrow> (error + EntityMapping list) \<times> EmbeddingGenerator" where
  "generate_mappings w g entities docs request =
     (let (entities', docs', g') =
            (if use_embeddings request then generate_embeddings w g entities docs
             else (entities, docs, g))
      in (entity_loop request docs' [] entities', g'))"

section \<open>MapWorker\<close>

record MapResult =
  res_project_id :: string
  mappings :: "EntityMapping list"
  success :: bool
  error_message :: "string option"
  map_duration :: real
  entities_processed :: nat
  docs_processed :: nat
  mappings_created :: nat
  res_request_id :: string

text \<open>
  \<open>handle_map_request\<close> after the request is decoded: \<open>entities\<close> and \<open>docs\<close> are what
  the loaders return. The result is the message published on \<open>align.map.result\<close>;
  when the body raises, the handler logs the error and publishes nothing.
\<close>

definition handle_map_request ::
    "World \<Rightarrow> EmbeddingGenerator \<Rightarrow> CodeEntity list \<Rightarrow> DocEntity list \<Rightarrow> MapRequest
       \<Rightarrow> MapResult option" where
  "handle_map_request w g entities docs request =
     (case fst (generate_mappings w g entities docs request) of
        Inl e \<Rightarrow> None
      | Inr ms \<Rightarrow>
          Some \<lparr>res_project_id = req_project_id request,
                mappings = ms,
                success = True,
                error_message = None,
                map_duration = 0,
                entities_processed = length entities,
                docs_processed = length docs,
                mappings_created = length ms,
                res_request_id = request_id request\<rparr>)"


section \<open>The embedding score in double precision\<close>

text \<open>
  The scores of the source are binary64 floats. The model above computes them over the
  reals; this section gives the cosine and the embedding score as the floats compute
  them, to see what rounding changes.
\<close>

text \<open>
  \<open>fl x\<close> is the binary64 number nearest to the real \<open>x\<close>, ties to the even
  significand (the exponent range is not bounded: no overflow, no subnormal numbers;
  the values met below are far from both).
\<close>

definition round_half_even :: "real \<Rightarrow> int" where
  "round_half_even q =
     (let f = \<lfloor>q\<rfloor> in
      if q - of_int f < 1 / 2 then f
      else if 1 / 2 < q - of_int f then f + 1
      else if even f then f else f + 1)"

definition fl :: "real \<Rightarrow> real" where
  "fl x =
     (if x = 0 then 0
      else let u = 2 powr of_int (\<lfloor>log 2 \<bar>x\<bar>\<rfloor> - 52)
           in sgn x * of_int (round_half_even (\<bar>x\<bar> / u)) * u)"

text \<open>
  The same computation as \<open>cosine_similarity\<close> above with every operation rounded as
  numpy does on float64 arrays: the products and the running sum of a dot product, the
  square root of the squared norm, the division by the norm. \<open>embedding_score_double\<close>
  is the line \<open>embedding_score = (similarity + 1) / 2\<close> on that result.
\<close>

definition dot_double :: "real list \<Rightarrow> real list \<Rightarrow> real" where
  "dot_double a b = foldl (\<lambda>s (x, y). fl (s + fl (x * y))) 0 (zip a b)"

definition normalize_double :: "real list \<Rightarrow> real list" where
  "normalize_double a =
     (let n = fl (sqrt (dot_double a a)) in map (\<lambda>x. fl (x / (if n = 0 then 1 else n))) a)"

definition cosine_similarity_double :: "real list \<Rightarrow> real list \<Rightarrow> error + real" where
  "cosine_similarity_double a b =
     (if length a \<noteq> length b then Inl ValueError
      else Inr (dot_double (normalize_double a) (normalize_double b)))"

definition embedding_score_double :: "real list \<Rightarrow> real list \<Rightarrow> error + real" where
  "embedding_score_double a b =
     (case cosine_similarity_double a b of
        Inl e \<Rightarrow> Inl e
      | Inr similarity \<Rightarrow> Inr (fl (fl (similarity + 1) / 2)))"

section \<open>What priming the embeddings may change\<close>

text \<open>
  \<open>_generate_embeddings\<close> leaves an item as it is, or, when its embedding is missing,
  sets the embedding and nothing else.
\<close>

definition primed_entity :: "CodeEntity \<Rightarrow> CodeEntity \<Rightarrow> bool" where
  "primed_entity e e' \<longleftrightarrow>
     e' = e \<or> (vec (ce_embedding e) = [] \<and> (\<exists>v. e' = e\<lparr>ce_embedding := Some v\<rparr>))"

definition primed_doc :: "DocEntity \<Rightarrow> DocEntity \<Rightarrow> bool" where
  "primed_doc d d' \<longleftrightarrow>
     d' = d \<or> (vec (de_embedding d) = [] \<and> (\<exists>v. d' = d\<lparr>de_embedding := Some v\<rparr>))"


section \<open>Example inputs\<close>

text \<open>
  An offline world (no API key, so no request is ever sent; the digest is a stand-in)
  and a generator with an empty cache, as \<open>EmbeddingGenerator()\<close> builds it.
\<close>

definition offline_world :: World where
  "offline_world = \<lparr>md5_digest = (\<lambda>txt k. 0), openai_reply = (\<lambda>n txt. None)\<rparr>"

definition fresh_generator :: EmbeddingGenerator where
  "fresh_generator = \<lparr>use_openai = False, embedding_cache = Map.empty, requests = 0\<rparr>"

definition function_entity :: "string \<Rightarrow> string \<Rightarrow> string \<Rightarrow> CodeEntity" where
  "function_entity i n p =
     \<lparr>ce_id = i, ce_project_id = ''p'', kind = ''function'', name = n, ce_path = p,
      lang = ''python'', signature = None, ce_embedding = None\<rparr>"

definition titled_doc :: "string \<Rightarrow> string \<Rightarrow> string \<Rightarrow> DocEntity" where
  "titled_doc i t p =
     \<lparr>de_id = i, de_project_id = ''p'', de_path = p, title = Some t, headings = [],
      de_embedding = None\<rparr>"

definition heuristics_request :: "int \<Rightarrow> MapRequest" where
  "heuristics_request cap =
     \<lparr>req_project_id = ''p'', entity_ids = [], doc_ids = [], use_embeddings = False,
      use_heuristics = True, min_score_threshold = 0.3, max_mappings_per_entity = cap,
      request_id = ''r''\<rparr>"

definition getUser_entity :: CodeEntity where
  "getUser_entity = function_entity ''e1'' ''getUser'' ''src/users.py''"

definition guide_doc :: DocEntity where
  "guide_doc = titled_doc ''d1'' ''Get User Guide'' ''docs/guide.md''"

definition user_entity :: CodeEntity where
  "user_entity = function_entity ''e1'' ''user'' ''src/user.py''"

definition guide_entity :: CodeEntity where
  "guide_entity = function_entity ''e2'' ''guide'' ''src/guide.py''"

definition user_doc :: DocEntity where
  "user_doc = titled_doc ''d1'' ''User Guide'' ''docs/user.md''"

definition manual_doc :: DocEntity where
  "manual_doc = titled_doc ''d2'' ''User Manual'' ''docs/manual.md''"

definition readme_doc :: DocEntity where
  "readme_doc = titled_doc ''d3'' ''User'' ''src/readme.md''"

definition snake_doc :: DocEntity where
  "snake_doc = titled_doc ''d4'' ''get_user'' ''docs/api.md''"

definition example_mapping :: "string \<Rightarrow> string \<Rightarrow> string \<Rightarrow> real \<Rightarrow> string \<Rightarrow> EntityMapping" where
  "example_mapping e d t s rel =
     \<lparr>mapping_id = e @ '':'' @ d, project_id = ''p'', entity_id = e, doc_id = d,
      anchor = None, score = s, relation = rel, confidence = ''low'',
      heuristics_score = s, embedding_score = 0, manual_override = False,
      metadata = (''function'', ''python'', Some t)\<rparr>"

text \<open>An entity and a doc that come with the same one-dimensional embedding.\<close>

definition embedded_entity :: CodeEntity where
  "embedded_entity = user_entity\<lparr>ce_embedding := Some [1]\<rparr>"

definition embedded_doc :: DocEntity where
  "embedded_doc = user_doc\<lparr>de_embedding := Some [1]\<rparr>"

definition embeddings_request :: MapRequest where
  "embeddings_request = (heuristics_request 5)\<lparr>use_embeddings := True, use_heuristics := False\<rparr>"

definition embedded_mapping :: EntityMapping where
  "embedded_mapping =
     (example_mapping ''e1'' ''d1'' ''User Guide'' 1 ''describes'')
       \<lparr>heuristics_score := 0, embedding_score := 1\<rparr>"

definition both_request :: MapRequest where
  "both_request = (heuristics_request 5)\<lparr>use_embeddings := True\<rparr>"

definition readme_mapping :: "real \<Rightarrow> string \<Rightarrow> real \<Rightarrow> EntityMapping" where
  "readme_mapping s rel es =
     (example_mapping ''e1'' ''d3'' ''User'' s rel)
       \<lparr>confidence := ''medium'', heuristics_score := 0.5, embedding_score := es\<rparr>"

definition manual_mapping :: EntityMapping where
  "manual_mapping = example_mapping ''e1'' ''d2'' ''User Manual'' 0.4 ''mentions''"

definition readme_heuristic_mapping :: EntityMapping where
  "readme_heuristic_mapping =
     (example_mapping ''e1'' ''d3'' ''User'' 0.5 ''references'')\<lparr>confidence := ''medium''\<rparr>"

text \<open>
  An entity and a doc that agree in name, path, parameter and heading, with embeddings
  that point in opposite directions.
\<close>

definition matching_entity :: CodeEntity where
  "matching_entity =
     (function_entity ''e1'' ''user'' ''docs/user.md'')
       \<lparr>signature := Some [PStr ''user''], ce_embedding := Some [1, 5]\<rparr>"

definition matching_doc :: DocEntity where
  "matching_doc =
     (titled_doc ''d1'' ''User'' ''docs/user.md'')
       \<lparr>headings := [\<lparr>heading_text = ''User'', heading_anchor = Some ''user''\<rparr>],
        de_embedding := Some [- 1, - 5]\<rparr>"

section \<open>Properties\<close>

subsection \<open>Where a returned mapping comes from\<close>

lemma calculate_mapping_score_fields:
  assumes "calculate_mapping_score e d r = Inr m"
  shows "relation m = determine_relation (score m)"
    and "score m = combine_scores r (heuristics_score m) (embedding_score m)"
    and "\<not> use_heuristics r \<Longrightarrow> confidence m = ''low'' \<and> heuristics_score m = 0"
    and "use_heuristics r \<Longrightarrow> calculate_heuristics_score e d = Inr (heuristics_score m, confidence m)"
  using assms
  by (auto simp: calculate_mapping_score_def Let_def split: if_splits sum.splits prod.splits)

lemma candidate_loop_set:
  "candidate_loop e r acc docs = Inr ms \<Longrightarrow> m \<in> set ms \<Longrightarrow>
     m \<in> set acc \<or> (\<exists>d \<in> set docs. calculate_mapping_score e d r = Inr m \<and> min_score_threshold r \<le> score m)"
proof (induction docs arbitrary: acc)
  case Nil
  then show ?case by simp
next
  case (Cons d docs)
  then show ?case
    by (fastforce split: sum.splits if_splits)
qed

lemma set_slice_to: "set (slice_to xs n) \<subseteq> set xs"
  by (auto simp: slice_to_def dest: in_set_takeD)

lemma map_entity_to_docs_set:
  assumes "map_entity_to_docs e docs r = Inr ms" "m \<in> set ms"
  shows "\<exists>d \<in> set docs. calculate_mapping_score e d r = Inr m \<and> min_score_threshold r \<le> score m"
proof -
  from assms(1) obtain cs where cs: "candidate_loop e r [] docs = Inr cs"
    and ms: "ms = slice_to (sort_by_score cs) (max_mappings_per_entity r)"
    by (auto simp: map_entity_to_docs_def split: sum.splits)
  from assms(2) ms have "m \<in> set cs"
    using set_slice_to by (fastforce simp: sort_by_score_def)
  with candidate_loop_set [OF cs] show ?thesis by simp
qed

lemma entity_loop_set:
  "entity_loop r docs acc es = Inr ms \<Longrightarrow> m \<in> set ms \<Longrightarrow>
     m \<in> set acc \<or> (\<exists>e \<in> set es. \<exists>d \<in> set docs.
        calculate_mapping_score e d r = Inr m \<and> min_score_threshold r \<le> score m)"
proof (induction es arbitrary: acc)
  case Nil
  then show ?case by simp
next
  case (Cons e es)
  from Cons.prems(1) obtain ems where ems: "map_entity_to_docs e docs r = Inr ems"
    by (auto split: sum.splits)
  show ?case
  proof (cases "max_mappings_per_entity r \<le> int (length ems)")
    case True
    with Cons.prems ems have "m \<in> set acc \<or> m \<in> set ems" by auto
    with map_entity_to_docs_set [OF ems] show ?thesis by auto
  next
    case False
    with Cons.prems ems have "entity_loop r docs (acc @ ems) es = Inr ms" by simp
    from Cons.IH [OF this Cons.prems(2)] map_entity_to_docs_set [OF ems]
    show ?thesis by auto
  qed
qed

lemma generate_mappings_set:
  assumes "fst (generate_mappings w g es ds r) = Inr ms" "m \<in> set ms"
  shows "\<exists>e d. calculate_mapping_score e d r = Inr m \<and> min_score_threshold r \<le> score m"
proof -
  from assms(1) obtain es' ds' where "entity_loop r ds' [] es' = Inr ms"
    by (auto simp: generate_mappings_def Let_def split: if_splits prod.splits)
  from entity_loop_set [OF this assms(2)] show ?thesis by auto
qed

subsection \<open>Ranges of the scores\<close>

lemma dot_Nil [simp]: "dot [] b = 0" "dot a [] = 0"
  by (simp_all add: dot_def)

lemma dot_Cons [simp]: "dot (x # xs) (y # ys) = x * y + dot xs ys"
  by (simp add: dot_def)

lemma dot_self_nonneg: "0 \<le> dot a a"
  by (induction a) simp_all

lemma dot_scaled: "dot (map (\<lambda>x. x / c) a) (map (\<lambda>y. y / d) b) = dot a b / (c * d)"
proof (induction a arbitrary: b)
  case Nil
  then show ?case by simp
next
  case (Cons x xs)
  then show ?case by (cases b) (simp_all add: add_divide_distrib)
qed

lemma two_dim_bound:
  fixes a b c d :: real
  shows "a * c + b * d \<le> sqrt (a\<^sup>2 + b\<^sup>2) * sqrt (c\<^sup>2 + d\<^sup>2)"
  by (rule power2_le_imp_le)
     (simp_all add: power2_sum power_mult_distrib ring_distribs L2_set_mult_ineq_lemma add.commute)

lemma dot_le_norms: "dot a b \<le> sqrt (dot a a) * sqrt (dot b b)"
proof (induction a arbitrary: b)
  case Nil
  then show ?case by simp
next
  case (Cons x xs)
  show ?case
  proof (cases b)
    case Nil
    then show ?thesis by (simp add: dot_self_nonneg)
  next
    case (Cons y ys)
    have "x * y + dot xs ys \<le> x * y + sqrt (dot xs xs) * sqrt (dot ys ys)"
      using Cons.IH [of ys] by simp
    also have "\<dots> \<le> sqrt (x\<^sup>2 + (sqrt (dot xs xs))\<^sup>2) * sqrt (y\<^sup>2 + (sqrt (dot ys ys))\<^sup>2)"
      by (rule two_dim_bound)
    also have "\<dots> = sqrt (x * x + dot xs xs) * sqrt (y * y + dot ys ys)"
      by (simp add: dot_self_nonneg power2_eq_square)
    finally show ?thesis using Cons by simp
  qed
qed

lemma dot_uminus: "dot (map uminus a) b = - dot a b"
proof (induction a arbitrary: b)
  case Nil
  then show ?case by simp
next
  case (Cons x xs)
  then show ?case by (cases b) simp_all
qed

lemma dot_uminus_self: "dot (map uminus a) (map uminus a) = dot a a"
  by (induction a) simp_all

lemma abs_dot_le_norms: "\<bar>dot a b\<bar> \<le> sqrt (dot a a) * sqrt (dot b b)"
proof -
  have "dot (map uminus a) b \<le> sqrt (dot (map uminus a) (map uminus a)) * sqrt (dot b b)"
    by (rule dot_le_norms)
  then have "- dot a b \<le> sqrt (dot a a) * sqrt (dot b b)"
    unfolding dot_uminus_self unfolding dot_uminus .
  with dot_le_norms [of a b] show ?thesis by (simp add: abs_le_iff)
qed

lemma cosine_similarity_range:
  assumes "cosine_similarity a b = Inr c"
  shows "\<bar>c\<bar> \<le> 1"
proof -
  define na where "na = sqrt (dot a a)"
  define nb where "nb = sqrt (dot b b)"
  have nn: "0 \<le> na" "0 \<le> nb" by (simp_all add: na_def nb_def dot_self_nonneg)
  from assms have c: "c = dot a b / ((if na = 0 then 1 else na) * (if nb = 0 then 1 else nb))"
    by (auto simp: cosine_similarity_def normalize_def Let_def dot_scaled na_def nb_def split: if_splits)
  show ?thesis
  proof (cases "na = 0 \<or> nb = 0")
    case True
    then have "dot a b = 0"
      using abs_dot_le_norms [of a b] by (auto simp: na_def nb_def)
    with c show ?thesis by simp
  next
    case False
    with nn have pos: "0 < na * nb" by simp
    have "\<bar>dot a b\<bar> \<le> na * nb"
      using abs_dot_le_norms [of a b] by (simp add: na_def nb_def)
    with pos False c nn show ?thesis by (simp add: abs_mult)
  qed
qed

lemma name_similarity_range:
  assumes "calculate_name_similarity n t = Inr x"
  shows "0 \<le> x \<and> x \<le> 1"
proof -
  have "real (card (set ew \<inter> set tw)) / real (card (set ew)) \<le> 1" if "set ew \<noteq> {}" for ew tw :: "string list"
  proof -
    have "card (set ew \<inter> set tw) \<le> card (set ew)" by (simp add: card_mono)
    moreover have "0 < card (set ew)" using that by (simp add: card_gt_0_iff)
    ultimately show ?thesis by simp
  qed
  with assms show ?thesis
    by (auto simp: calculate_name_similarity_def split: if_splits sum.splits)
qed

lemma common_parts_le: "common_parts a b \<le> length a" "common_parts a b \<le> length b"
  by (induction a b rule: common_parts.induct) simp_all

lemma path_similarity_range:
  "0 \<le> calculate_path_similarity p q \<and> calculate_path_similarity p q \<le> 1"
proof -
  have "common_parts a b \<le> max (length a) (length b)" for a b
    using common_parts_le(1) [of a b] by simp
  then show ?thesis
    by (simp add: calculate_path_similarity_def Let_def)
qed

lemma signature_similarity_range:
  "0 \<le> calculate_signature_similarity sg doc \<and> calculate_signature_similarity sg doc \<le> 1"
  by (simp add: calculate_signature_similarity_def Let_def divide_le_eq)

lemma heading_loop_range:
  "heading_loop ew acc hs = Inr x \<Longrightarrow> finite ew \<Longrightarrow> 0 \<le> acc \<Longrightarrow> acc \<le> 1 \<Longrightarrow> 0 \<le> x \<and> x \<le> 1"
proof (induction hs arbitrary: acc)
  case Nil
  then show ?case by simp
next
  case (Cons h hs)
  from Cons.prems(1) obtain hw where hw: "extract_words (lower (heading_text h)) = Inr hw"
    by (auto split: sum.splits)
  show ?case
  proof (cases "ew \<noteq> {} \<and> set hw \<noteq> {}")
    case True
    let ?s = "real (card (ew \<inter> set hw)) / real (card ew)"
    have "card (ew \<inter> set hw) \<le> card ew" using Cons.prems(2) by (simp add: card_mono)
    moreover have "0 < card ew" using True Cons.prems(2) by (simp add: card_gt_0_iff)
    ultimately have "0 \<le> ?s" "?s \<le> 1" by simp_all
    then have "0 \<le> max acc ?s" "max acc ?s \<le> 1" using Cons.prems by simp_all
    moreover have "heading_loop ew (max acc ?s) hs = Inr x"
      using Cons.prems(1) hw True by simp
    ultimately show ?thesis using Cons.IH Cons.prems(2) by blast
  next
    case False
    then have "heading_loop ew acc hs = Inr x"
      using Cons.prems(1) hw by auto
    then show ?thesis using Cons.IH Cons.prems by blast
  qed
qed

lemma heading_similarity_range:
  "calculate_heading_similarity n hs = Inr x \<Longrightarrow> 0 \<le> x \<and> x \<le> 1"
  by (auto simp: calculate_heading_similarity_def split: sum.splits dest!: heading_loop_range)

lemma heuristics_score_range:
  assumes "calculate_heuristics_score e d = Inr (h, c)"
  shows "0 \<le> h \<and> h \<le> 1"
proof -
  from assms obtain n where n: "calculate_name_similarity (name e) (case title d of Some t \<Rightarrow> t | None \<Rightarrow> []) = Inr n"
    by (auto simp: calculate_heuristics_score_def split: sum.splits)
  define p where "p = calculate_path_similarity (ce_path e) (de_path d)"
  define s where "s = (if signature e \<noteq> None \<and> kind e \<in> {''function'', ''method''}
      then calculate_signature_similarity (signature e) d else 0)"
  obtain hd where hd: "0 \<le> hd" "hd \<le> 1" and h: "h = n * 0.4 + p * 0.2 + s * 0.2 + hd * 0.2"
  proof (cases "headings d = []")
    case True
    with assms n have "h = n * 0.4 + p * 0.2 + s * 0.2 + 0 * 0.2"
      by (auto simp: calculate_heuristics_score_def Let_def weights_def p_def s_def)
    then show ?thesis using that [of 0] by simp
  next
    case False
    with assms n obtain x where x: "calculate_heading_similarity (name e) (headings d) = Inr x"
      by (auto simp: calculate_heuristics_score_def Let_def split: sum.splits)
    with assms n False have "h = n * 0.4 + p * 0.2 + s * 0.2 + x * 0.2"
      by (auto simp: calculate_heuristics_score_def Let_def weights_def p_def s_def)
    then show ?thesis using that [of x] heading_similarity_range [OF x] by simp
  qed
  have "0 \<le> n" "n \<le> 1" using name_similarity_range [OF n] by simp_all
  moreover have "0 \<le> p" "p \<le> 1" using path_similarity_range by (simp_all add: p_def)
  moreover have "0 \<le> s" "s \<le> 1" using signature_similarity_range by (simp_all add: s_def)
  ultimately show ?thesis using hd h by simp
qed

lemma heuristics_ignore_embeddings:
  "calculate_heuristics_score (e\<lparr>ce_embedding := x\<rparr>) (d\<lparr>de_embedding := y\<rparr>) = calculate_heuristics_score e d"
  by (simp add: calculate_heuristics_score_def calculate_signature_similarity_def Let_def cong: sum.case_cong)

lemma confidence_level_zero: "confidence_level 0 = ''low''"
  by (simp add: confidence_level_def)

lemma calculate_mapping_score_confidence:
  assumes "calculate_mapping_score e d r = Inr m"
  shows "confidence m = confidence_level (heuristics_score m)"
proof (cases "use_heuristics r")
  case True
  with calculate_mapping_score_fields(4) [OF assms]
  show ?thesis by (auto simp: calculate_heuristics_score_def Let_def split: sum.splits)
next
  case False
  with calculate_mapping_score_fields(3) [OF assms] show ?thesis
    by (simp add: confidence_level_zero)
qed

lemma calculate_mapping_score_ranges:
  assumes "calculate_mapping_score e d r = Inr m"
  shows "0 \<le> heuristics_score m \<and> heuristics_score m \<le> 1"
    and "0 \<le> embedding_score m \<and> embedding_score m \<le> 1"
    and "0 \<le> score m \<and> score m \<le> 1"
proof -
  show h: "0 \<le> heuristics_score m \<and> heuristics_score m \<le> 1"
  proof (cases "use_heuristics r")
    case True
    with calculate_mapping_score_fields(4) [OF assms] heuristics_score_range show ?thesis by blast
  next
    case False
    with calculate_mapping_score_fields(3) [OF assms] show ?thesis by simp
  qed
  show e: "0 \<le> embedding_score m \<and> embedding_score m \<le> 1"
  proof -
    from assms consider "embedding_score m = 0"
      | c where "cosine_similarity (vec (ce_embedding e)) (vec (de_embedding d)) = Inr c"
          "embedding_score m = (c + 1) / 2"
      by (auto simp: calculate_mapping_score_def Let_def split: if_splits sum.splits prod.splits)
    then show ?thesis
    proof cases
      case 1
      then show ?thesis by simp
    next
      case 2
      from cosine_similarity_range [OF 2(1)] 2(2) show ?thesis by (simp add: abs_le_iff)
    qed
  qed
  from h e calculate_mapping_score_fields(2) [OF assms]
  show "0 \<le> score m \<and> score m \<le> 1"
    by (auto simp: combine_scores_def)
qed


subsection \<open>The example inputs, evaluated\<close>

lemma heuristics_user_guide: "calculate_heuristics_score user_entity user_doc = Inr (0.4, ''low'')"
  by code_simp

lemma heuristics_guide_guide: "calculate_heuristics_score guide_entity user_doc = Inr (0.4, ''low'')"
  by code_simp

lemma heuristics_user_manual: "calculate_heuristics_score user_entity manual_doc = Inr (0.4, ''low'')"
  by code_simp

lemma heuristics_user_readme: "calculate_heuristics_score user_entity readme_doc = Inr (0.5, ''medium'')"
  by code_simp

lemma heuristics_user_snake: "calculate_heuristics_score user_entity snake_doc = Inl TypeError"
  by code_simp

lemmas example_defs = user_entity_def guide_entity_def user_doc_def manual_doc_def readme_doc_def
  snake_doc_def function_entity_def titled_doc_def heuristics_request_def example_mapping_def
  embedded_entity_def embedded_doc_def embeddings_request_def embedded_mapping_def
  both_request_def readme_mapping_def manual_mapping_def readme_heuristic_mapping_def

lemma score_user_guide:
  "calculate_mapping_score user_entity user_doc (heuristics_request cap) = Inr (example_mapping ''e1'' ''d1'' ''User Guide'' 0.4 ''mentions'')"
  by (simp add: calculate_mapping_score_def heuristics_user_guide)
     (simp add: example_defs combine_scores_def determine_relation_def find_best_anchor_def Let_def)

lemma score_guide_guide:
  "calculate_mapping_score guide_entity user_doc (heuristics_request cap) = Inr (example_mapping ''e2'' ''d1'' ''User Guide'' 0.4 ''mentions'')"
  by (simp add: calculate_mapping_score_def heuristics_guide_guide)
     (simp add: example_defs combine_scores_def determine_relation_def find_best_anchor_def Let_def)

lemma run_user_guide:
  "fst (generate_mappings offline_world fresh_generator [user_entity] [user_doc] (heuristics_request 5))
     = Inr [example_mapping ''e1'' ''d1'' ''User Guide'' 0.4 ''mentions'']"
  by (simp add: generate_mappings_def map_entity_to_docs_def score_user_guide sort_by_score_def slice_to_def)
     (simp add: example_defs)

lemma run_embedded:
  "fst (generate_mappings offline_world fresh_generator [embedded_entity] [embedded_doc] embeddings_request)
     = Inr [embedded_mapping]"
  by (simp add: example_defs generate_mappings_def generate_embeddings_def vec_def
        map_entity_to_docs_def calculate_mapping_score_def cosine_similarity_def normalize_def
        dot_def combine_scores_def determine_relation_def find_best_anchor_def
        sort_by_score_def slice_to_def Let_def)

lemma score_user_readme_plain:
  "calculate_mapping_score user_entity readme_doc both_request = Inr (readme_mapping 0.3 ''mentions'' 0)"
  by (simp add: calculate_mapping_score_def heuristics_user_readme both_request_def heuristics_request_def)
     (simp add: example_defs vec_def combine_scores_def determine_relation_def find_best_anchor_def Let_def)

lemma score_user_readme_embedded:
  "calculate_mapping_score (user_entity\<lparr>ce_embedding := Some [1]\<rparr>) (readme_doc\<lparr>de_embedding := Some [1]\<rparr>)
     both_request = Inr (readme_mapping 0.7 ''references'' 1)"
  by (simp add: calculate_mapping_score_def heuristics_ignore_embeddings heuristics_user_readme
        both_request_def heuristics_request_def)
     (simp add: example_defs vec_def combine_scores_def determine_relation_def find_best_anchor_def
        cosine_similarity_def normalize_def dot_def Let_def)

lemma run_user_readme_embedded:
  "fst (generate_mappings offline_world fresh_generator [user_entity\<lparr>ce_embedding := Some [1]\<rparr>]
          [readme_doc\<lparr>de_embedding := Some [1]\<rparr>] both_request)
     = Inr [readme_mapping 0.7 ''references'' 1]"
  by (simp add: generate_mappings_def generate_embeddings_def map_entity_to_docs_def
        score_user_readme_embedded sort_by_score_def slice_to_def)
     (simp add: example_defs vec_def)


lemma score_user_manual:
  "calculate_mapping_score user_entity manual_doc (heuristics_request cap) = Inr manual_mapping"
  by (simp add: calculate_mapping_score_def heuristics_user_manual)
     (simp add: example_defs combine_scores_def determine_relation_def find_best_anchor_def Let_def)

lemma score_user_readme:
  "calculate_mapping_score user_entity readme_doc (heuristics_request cap) = Inr readme_heuristic_mapping"
  by (simp add: calculate_mapping_score_def heuristics_user_readme)
     (simp add: example_defs combine_scores_def determine_relation_def find_best_anchor_def Let_def)

lemma rank_three_docs:
  "map_entity_to_docs user_entity [user_doc, manual_doc, readme_doc] (heuristics_request 3)
     = Inr [readme_heuristic_mapping, example_mapping ''e1'' ''d1'' ''User Guide'' 0.4 ''mentions'', manual_mapping]"
  by (simp add: map_entity_to_docs_def score_user_guide score_user_manual score_user_readme
        sort_by_score_def slice_to_def)
     (simp add: example_defs)


subsection \<open>Relation, ranges and confidence of the returned mappings\<close>

text \<open>
  C5. For every mapping that \<open>generate_mappings\<close> returns, the relation is
  \<open>describes\<close> exactly when the blended score is at least 0.8, \<open>references\<close> exactly
  when it is at least 0.5 and below 0.8, and \<open>mentions\<close> exactly when it is below 0.5.
\<close>

theorem relation_from_score:
  assumes "fst (generate_mappings w g entities docs request) = Inr ms" and "m \<in> set ms"
  shows "(relation m = ''describes'' \<longleftrightarrow> score m \<ge> 0.8) \<and>
         (relation m = ''references'' \<longleftrightarrow> 0.5 \<le> score m \<and> score m < 0.8) \<and>
         (relation m = ''mentions'' \<longleftrightarrow> score m < 0.5)"
proof -
  from generate_mappings_set [OF assms] obtain e d
    where "calculate_mapping_score e d request = Inr m" by blast
  then have "relation m = determine_relation (score m)"
    by (rule calculate_mapping_score_fields(1))
  then show ?thesis by (simp add: determine_relation_def)
qed

theorem relation_from_score_witness:
  "fst (generate_mappings offline_world fresh_generator [embedded_entity] [embedded_doc] embeddings_request)
     = Inr [embedded_mapping] \<and>
   embedded_mapping \<in> set [embedded_mapping] \<and>
   relation embedded_mapping = ''describes'' \<and> score embedded_mapping \<ge> 0.8"
  using relation_from_score [OF run_embedded, of embedded_mapping] run_embedded
  by (simp add: embedded_mapping_def example_mapping_def)

text \<open>
  With the arithmetic taken exactly, every mapping that \<open>generate_mappings\<close> returns
  has its score, its heuristic score and its embedding score between 0 and 1, and its
  score is at least the threshold of the request. A score outside this range can only
  come from rounding.
\<close>

lemma exact_scores_in_range:
  assumes "fst (generate_mappings w g entities docs request) = Inr ms" and "m \<in> set ms"
  shows "0 \<le> score m \<and> score m \<le> 1 \<and>
         0 \<le> heuristics_score m \<and> heuristics_score m \<le> 1 \<and>
         0 \<le> embedding_score m \<and> embedding_score m \<le> 1 \<and>
         min_score_threshold request \<le> score m"
proof -
  from generate_mappings_set [OF assms] obtain e d
    where m: "calculate_mapping_score e d request = Inr m"
      and "min_score_threshold request \<le> score m" by blast
  with calculate_mapping_score_ranges [OF m] show ?thesis by simp
qed

text \<open>
  C9. When \<open>use_heuristics\<close> is false, every mapping that \<open>generate_mappings\<close> returns
  has the confidence \<open>low\<close>, whatever its embedding score and blended score are (in
  the witness both are 1).
\<close>

theorem no_heuristics_low_confidence:
  assumes "\<not> use_heuristics request"
    and "fst (generate_mappings w g entities docs request) = Inr ms" and "m \<in> set ms"
  shows "confidence m = ''low''"
proof -
  from generate_mappings_set [OF assms(2,3)] obtain e d
    where "calculate_mapping_score e d request = Inr m" by blast
  from calculate_mapping_score_fields(3) [OF this assms(1)] show ?thesis by simp
qed

theorem no_heuristics_low_confidence_witness:
  "\<not> use_heuristics embeddings_request \<and>
   fst (generate_mappings offline_world fresh_generator [embedded_entity] [embedded_doc] embeddings_request)
     = Inr [embedded_mapping] \<and>
   embedding_score embedded_mapping = 1 \<and> score embedded_mapping = 1 \<and>
   confidence embedded_mapping = ''low''"
proof -
  have off: "\<not> use_heuristics embeddings_request"
    by (simp add: embeddings_request_def heuristics_request_def)
  have "confidence embedded_mapping = ''low''"
    using no_heuristics_low_confidence [OF off run_embedded, of embedded_mapping] by simp
  with off run_embedded show ?thesis
    by (simp add: embedded_mapping_def example_mapping_def)
qed

text \<open>
  C8. The confidence of a mapping depends on the heuristic score alone. For one pair,
  scored under one request with two different choices of the embedding vectors of the
  entity and of the doc, the confidence and the heuristic score agree; and for every
  mapping that \<open>generate_mappings\<close> returns, the confidence is \<open>high\<close> exactly when
  the heuristic score is at least 0.8, \<open>medium\<close> exactly when it is at least 0.5 and
  below 0.8, and \<open>low\<close> exactly when it is below 0.5.
\<close>

theorem confidence_from_heuristics_alone:
  "(\<forall>m m'. calculate_mapping_score entity doc request = Inr m \<and>
            calculate_mapping_score (entity\<lparr>ce_embedding := x\<rparr>) (doc\<lparr>de_embedding := y\<rparr>) request = Inr m'
            \<longrightarrow> confidence m' = confidence m \<and> heuristics_score m' = heuristics_score m) \<and>
   (\<forall>ms m. fst (generate_mappings w g entities docs request) = Inr ms \<and> m \<in> set ms
            \<longrightarrow> (confidence m = ''high'' \<longleftrightarrow> heuristics_score m \<ge> 0.8) \<and>
                (confidence m = ''medium'' \<longleftrightarrow>
                   0.5 \<le> heuristics_score m \<and> heuristics_score m < 0.8) \<and>
                (confidence m = ''low'' \<longleftrightarrow> heuristics_score m < 0.5))"
proof (intro conjI allI impI)
  fix m m'
  assume a: "calculate_mapping_score entity doc request = Inr m \<and>
     calculate_mapping_score (entity\<lparr>ce_embedding := x\<rparr>) (doc\<lparr>de_embedding := y\<rparr>) request = Inr m'"
  show "confidence m' = confidence m" "heuristics_score m' = heuristics_score m"
  proof (atomize (full), cases "use_heuristics request")
    case True
    from a calculate_mapping_score_fields(4) [OF _ True]
    have "calculate_heuristics_score entity doc = Inr (heuristics_score m, confidence m)"
      "calculate_heuristics_score (entity\<lparr>ce_embedding := x\<rparr>) (doc\<lparr>de_embedding := y\<rparr>)
         = Inr (heuristics_score m', confidence m')"
      by blast+
    then show "confidence m' = confidence m \<and> heuristics_score m' = heuristics_score m"
      by (simp add: heuristics_ignore_embeddings)
  next
    case False
    from a calculate_mapping_score_fields(3) [OF _ False]
    have "confidence m = ''low'' \<and> heuristics_score m = 0"
      "confidence m' = ''low'' \<and> heuristics_score m' = 0"
      by blast+
    then show "confidence m' = confidence m \<and> heuristics_score m' = heuristics_score m" by simp
  qed
next
  fix ms m
  assume "fst (generate_mappings w g entities docs request) = Inr ms \<and> m \<in> set ms"
  then obtain e d where "calculate_mapping_score e d request = Inr m"
    using generate_mappings_set by blast
  then have tier: "confidence m = confidence_level (heuristics_score m)"
    by (rule calculate_mapping_score_confidence)
  show "confidence m = ''high'' \<longleftrightarrow> heuristics_score m \<ge> 0.8"
    by (simp add: tier confidence_level_def)
  show "confidence m = ''medium'' \<longleftrightarrow> 0.5 \<le> heuristics_score m \<and> heuristics_score m < 0.8"
    by (simp add: tier confidence_level_def)
  show "confidence m = ''low'' \<longleftrightarrow> heuristics_score m < 0.5"
    by (simp add: tier confidence_level_def)
qed

theorem confidence_from_heuristics_alone_witness:
  "calculate_mapping_score user_entity readme_doc both_request = Inr (readme_mapping 0.3 ''mentions'' 0) \<and>
   calculate_mapping_score (user_entity\<lparr>ce_embedding := Some [1]\<rparr>) (readme_doc\<lparr>de_embedding := Some [1]\<rparr>)
     both_request = Inr (readme_mapping 0.7 ''references'' 1) \<and>
   confidence (readme_mapping 0.7 ''references'' 1) = confidence (readme_mapping 0.3 ''mentions'' 0) \<and>
   fst (generate_mappings offline_world fresh_generator [user_entity\<lparr>ce_embedding := Some [1]\<rparr>]
          [readme_doc\<lparr>de_embedding := Some [1]\<rparr>] both_request)
     = Inr [readme_mapping 0.7 ''references'' 1] \<and>
   confidence (readme_mapping 0.7 ''references'' 1) = ''medium'' \<and>
   0.5 \<le> heuristics_score (readme_mapping 0.7 ''references'' 1) \<and>
   heuristics_score (readme_mapping 0.7 ''references'' 1) < 0.8"
proof -
  note inst = confidence_from_heuristics_alone
    [of user_entity readme_doc both_request "Some [1]" "Some [1]" offline_world fresh_generator
        "[user_entity\<lparr>ce_embedding := Some [1]\<rparr>]" "[readme_doc\<lparr>de_embedding := Some [1]\<rparr>]"]
  from inst score_user_readme_plain score_user_readme_embedded
  have "confidence (readme_mapping 0.7 ''references'' 1) = confidence (readme_mapping 0.3 ''mentions'' 0)"
    by blast
  moreover from inst run_user_readme_embedded
  have "confidence (readme_mapping 0.7 ''references'' 1) = ''medium'' \<longleftrightarrow>
      0.5 \<le> heuristics_score (readme_mapping 0.7 ''references'' 1) \<and>
      heuristics_score (readme_mapping 0.7 ''references'' 1) < 0.8"
    by (meson list.set_intros(1))
  moreover have "confidence (readme_mapping 0.7 ''references'' 1) = ''medium''"
    by (simp add: readme_mapping_def)
  ultimately show ?thesis
    using score_user_readme_plain score_user_readme_embedded run_user_readme_embedded by simp
qed


subsection \<open>Rounding in the embedding score\<close>

lemma round_half_even_eq:
  assumes "of_int m - 1 / 2 < q" and "q < of_int m + 1 / 2"
  shows "round_half_even q = m"
proof (cases "of_int m \<le> q")
  case True
  with assms have f: "\<lfloor>q\<rfloor> = m" by (simp add: floor_eq_iff)
  with assms show ?thesis by (simp add: round_half_even_def)
next
  case False
  with assms have f: "\<lfloor>q\<rfloor> = m - 1" by (simp add: floor_eq_iff)
  with assms False show ?thesis by (simp add: round_half_even_def)
qed

lemma fl_eval:
  assumes "2 powr of_int k \<le> x" and "x < 2 powr of_int (k + 1)"
    and "of_int m - 1 / 2 < x / 2 powr of_int (k - 52)"
    and "x / 2 powr of_int (k - 52) < of_int m + 1 / 2"
  shows "fl x = of_int m * 2 powr of_int (k - 52)"
proof -
  have pos: "0 < x" using assms(1) by (smt (verit) powr_gt_zero)
  have "\<lfloor>log 2 x\<rfloor> = k"
    using assms(1,2) pos by (simp add: floor_log_eq_powr_iff)
  moreover have "round_half_even (x / 2 powr of_int (k - 52)) = m"
    using assms(3,4) by (rule round_half_even_eq)
  ultimately show ?thesis using pos by (simp add: fl_def)
qed

lemma fl_minus: "fl (- x) = - fl x"
  by (simp add: fl_def Let_def)

lemma fl_1: "fl 1 = 1"
  using fl_eval [of 0 1 "2 ^ 52"] by (simp add: powr_neg_numeral)

lemma fl_25: "fl 25 = 25"
  using fl_eval [of 4 25 "25 * 2 ^ 48"] by (simp add: powr_neg_numeral)

lemma fl_26: "fl 26 = 26"
  using fl_eval [of 4 26 "26 * 2 ^ 48"] by (simp add: powr_neg_numeral)

lemma fl_sqrt_26: "fl (sqrt 26) = 5740985595342838 / 2 ^ 50"
proof -
  have lo: "(5740985595342838 - 1 / 2) / 2 ^ 50 < sqrt 26"
    by (rule real_less_rsqrt) (simp add: power2_eq_square)
  have hi: "sqrt 26 < (5740985595342838 + 1 / 2) / 2 ^ 50"
    by (rule real_less_lsqrt) (simp_all add: power2_eq_square)
  have "4 \<le> sqrt 26" by (rule real_le_rsqrt) simp
  moreover have "sqrt 26 < 8" by (rule real_less_lsqrt) simp_all
  ultimately show ?thesis
    using fl_eval [of 2 "sqrt 26" 5740985595342838] lo hi
    by (simp add: powr_neg_numeral field_simps)
qed


lemma double_cosine_opposite:
  "cosine_similarity_double [1, 5] [- 1, - 5] = Inr (- (1 + 1 / 2 ^ 52)) \<and>
   embedding_score_double [1, 5] [- 1, - 5] = Inr (- (1 / 2 ^ 53))"
proof -
  define N :: real where "N = 5740985595342838 / 2 ^ 50"
  define X1 :: real where "X1 = 7065828425037340 / 2 ^ 55"
  define X2 :: real where "X2 = 8832285531296675 / 2 ^ 53"
  define P1 :: real where "P1 = 5542891849071380 / 2 ^ 57"
  define P2 :: real where "P2 = 8660768514174032 / 2 ^ 53"
  define S :: real where "S = 1 + 1 / 2 ^ 52"
  have N: "fl (sqrt 26) = N" and N0: "N \<noteq> 0"
    using fl_sqrt_26 by (simp_all add: N_def)
  have X1: "fl (1 / N) = X1"
    unfolding N_def X1_def
    using fl_eval [of "- 3" "1 / (5740985595342838 / 2 ^ 50)" 7065828425037340]
    by (simp add: powr_neg_numeral)
  have X2: "fl (5 / N) = X2"
    unfolding N_def X2_def
    using fl_eval [of "- 1" "5 / (5740985595342838 / 2 ^ 50)" 8832285531296675]
    by (simp add: powr_neg_numeral)
  have P1: "fl (X1 * X1) = P1"
    unfolding X1_def P1_def
    using fl_eval [of "- 5" "7065828425037340 / 2 ^ 55 * (7065828425037340 / 2 ^ 55)"
        5542891849071380]
    by (simp add: powr_neg_numeral)
  have P2: "fl (X2 * X2) = P2"
    unfolding X2_def P2_def
    using fl_eval [of "- 1" "8832285531296675 / 2 ^ 53 * (8832285531296675 / 2 ^ 53)"
        8660768514174032]
    by (simp add: powr_neg_numeral)
  have P1': "fl P1 = P1"
    unfolding P1_def
    using fl_eval [of "- 5" "5542891849071380 / 2 ^ 57" 5542891849071380]
    by (simp add: powr_neg_numeral)
  have S: "fl (P1 + P2) = S"
    unfolding P1_def P2_def S_def
    using fl_eval [of 0 "5542891849071380 / 2 ^ 57 + 8660768514174032 / 2 ^ 53" 4503599627370497]
    by (simp add: powr_neg_numeral)
  have E1: "fl (1 / 2 ^ 52) = 1 / 2 ^ 52"
    using fl_eval [of "- 52" "1 / 2 ^ 52" "2 ^ 52"] by (simp add: powr_neg_numeral)
  have E2: "fl (1 / 2 ^ 53) = 1 / 2 ^ 53"
    using fl_eval [of "- 53" "1 / 2 ^ 53" "2 ^ 52"] by (simp add: powr_neg_numeral)
  have na: "normalize_double [1, 5] = [X1, X2]"
    by (simp add: normalize_double_def dot_double_def fl_1 fl_25 fl_26 N N0 X1 X2)
  have nb: "normalize_double [- 1, - 5] = [- X1, - X2]"
    by (simp add: normalize_double_def dot_double_def fl_1 fl_25 fl_26 N N0 X1 X2 fl_minus)
  have a: "fl (X1 * - X1) = - P1" using fl_minus [of "X1 * X1"] P1 by simp
  have b: "fl (X2 * - X2) = - P2" using fl_minus [of "X2 * X2"] P2 by simp
  have c: "fl (0 + - P1) = - P1" using fl_minus [of P1] P1' by simp
  have d: "fl (- P1 + - P2) = - S" using fl_minus [of "P1 + P2"] S by simp
  have "dot_double [X1, X2] [- X1, - X2] = fl (fl (0 + fl (X1 * - X1)) + fl (X2 * - X2))"
    by (simp add: dot_double_def)
  also have "\<dots> = - S" by (simp only: a b c d)
  finally have cos: "cosine_similarity_double [1, 5] [- 1, - 5] = Inr (- S)"
    by (simp add: cosine_similarity_double_def na nb)
  have "- S + 1 = - (1 / 2 ^ 52)" by (simp add: S_def)
  then have e1: "fl (- S + 1) = - (1 / 2 ^ 52)"
    using fl_minus [of "1 / 2 ^ 52"] E1 by simp
  have e2: "fl (- (1 / 2 ^ 52) / 2) = - (1 / 2 ^ 53)"
    using fl_minus [of "1 / 2 ^ 53"] E2 by simp
  have "embedding_score_double [1, 5] [- 1, - 5] = Inr (fl (fl (- S + 1) / 2))"
    by (simp add: embedding_score_double_def cos)
  also have "\<dots> = Inr (- (1 / 2 ^ 53))" by (simp only: e1 e2)
  finally have emb: "embedding_score_double [1, 5] [- 1, - 5] = Inr (- (1 / 2 ^ 53))" .
  from cos emb show ?thesis by (simp add: S_def)
qed

lemma heuristics_matching:
  "calculate_heuristics_score matching_entity matching_doc = Inr (1, ''high'')"
  by code_simp

lemma exact_cosine_opposite: "cosine_similarity [1, 5] [- 1, - 5] = Inr (- 1)"
proof -
  have "sqrt 26 \<noteq> 0" by simp
  moreover have "sqrt 26 * sqrt 26 = 26" by simp
  ultimately show ?thesis
    by (simp add: cosine_similarity_def normalize_def dot_scaled Let_def)
qed

lemma blend_passes: "min_score_threshold both_request \<le> combine_scores both_request 1 (- (1 / 2 ^ 53))"
  by (simp add: both_request_def heuristics_request_def combine_scores_def)

lemma vecs: "vec (ce_embedding matching_entity) = [1, 5]" "vec (de_embedding matching_doc) = [- 1, - 5]"
  by (simp_all add: matching_entity_def matching_doc_def vec_def function_entity_def titled_doc_def)

text \<open>
  C6. The claim: every returned mapping has its three scores between 0 and 1 (and its
  score at least the threshold). The source converts the cosine \<open>to 0-1 scale\<close> by
  \<open>(similarity + 1) / 2\<close> and does not clamp. For the embeddings \<open>[1, 5]\<close> and
  \<open>[-1, -5]\<close> the exact cosine is -1, but in double precision the two normalised
  vectors have the dot product \<open>-(1 + 2^-52)\<close>, and the embedding score is \<open>-2^-53\<close>,
  below 0. The entity and the doc agree in every heuristic signal, so the heuristic
  score is 1 and the blended score of the pair (0.6 after rounding) passes the default
  threshold 0.3: the mapping is returned.
\<close>

theorem embedding_score_negative_in_doubles:
  "calculate_heuristics_score matching_entity matching_doc = Inr (1, ''high'') \<and>
   cosine_similarity (vec (ce_embedding matching_entity)) (vec (de_embedding matching_doc))
     = Inr (- 1) \<and>
   cosine_similarity_double (vec (ce_embedding matching_entity)) (vec (de_embedding matching_doc))
     = Inr (- (1 + 1 / 2 ^ 52)) \<and>
   embedding_score_double (vec (ce_embedding matching_entity)) (vec (de_embedding matching_doc))
     = Inr (- (1 / 2 ^ 53)) \<and>
   - (1 / 2 ^ 53) < (0 :: real) \<and>
   min_score_threshold both_request \<le> combine_scores both_request 1 (- (1 / 2 ^ 53))"
  using heuristics_matching exact_cosine_opposite double_cosine_opposite blend_passes
  by (simp add: vecs)

subsection \<open>Ranking of the mappings of one entity\<close>

lemma subseq_map_preimage:
  "subseq ys (map f xs) \<Longrightarrow> \<exists>xs'. subseq xs' xs \<and> ys = map f xs'"
proof (induction xs arbitrary: ys)
  case Nil
  then have "ys = []" by simp
  then show ?case by auto
next
  case (Cons x xs)
  show ?case
  proof (cases ys)
    case Nil
    then show ?thesis by auto
  next
    case (Cons y ys')
    show ?thesis
    proof (cases "y = f x")
      case True
      with Cons Cons.prems have "subseq ys' (map f xs)" by simp
      from Cons.IH [OF this] obtain xs' where "subseq xs' xs" "ys' = map f xs'" by blast
      with True Cons have "subseq (x # xs') (x # xs) \<and> ys = map f (x # xs')" by simp
      then show ?thesis by blast
    next
      case False
      with Cons Cons.prems have "subseq ys (map f xs)" by simp
      from Cons.IH [OF this] obtain xs' where "subseq xs' xs" "ys = map f xs'" by blast
      then have "subseq xs' (x # xs) \<and> ys = map f xs'" by auto
      then show ?thesis by blast
    qed
  qed
qed

lemma candidate_loop_order:
  "candidate_loop e r acc docs = Inr cs \<Longrightarrow>
     \<exists>ms. cs = acc @ ms \<and> subseq (map Inr ms) (map (\<lambda>d. calculate_mapping_score e d r) docs)"
proof (induction docs arbitrary: acc)
  case Nil
  then show ?case by simp
next
  case (Cons d docs)
  from Cons.prems obtain m where m: "calculate_mapping_score e d r = Inr m"
    by (auto split: sum.splits)
  show ?case
  proof (cases "min_score_threshold r \<le> score m")
    case True
    with Cons.prems m have "candidate_loop e r (acc @ [m]) docs = Inr cs" by simp
    from Cons.IH [OF this] obtain ms where "cs = (acc @ [m]) @ ms"
      "subseq (map Inr ms) (map (\<lambda>d. calculate_mapping_score e d r) docs)" by blast
    with m have "cs = acc @ (m # ms) \<and>
      subseq (map Inr (m # ms)) (map (\<lambda>d. calculate_mapping_score e d r) (d # docs))" by simp
    then show ?thesis by blast
  next
    case False
    with Cons.prems m have "candidate_loop e r acc docs = Inr cs" by simp
    from Cons.IH [OF this] obtain ms where "cs = acc @ ms"
      "subseq (map Inr ms) (map (\<lambda>d. calculate_mapping_score e d r) docs)" by blast
    then have "cs = acc @ ms \<and>
      subseq (map Inr ms) (map (\<lambda>d. calculate_mapping_score e d r) (d # docs))" by auto
    then show ?thesis by blast
  qed
qed

lemma sort_by_score_sorted: "sorted_wrt (\<lambda>a b. score a \<ge> score b) (sort_by_score ms)"
proof -
  have "sorted (map (\<lambda>x. - score x) (sort_by_score ms))"
    by (simp add: sort_by_score_def)
  then show ?thesis by (simp add: sorted_map)
qed

lemma sort_by_score_stable:
  "filter (\<lambda>m. score m = s) (sort_by_score ms) = filter (\<lambda>m. score m = s) ms"
  using sort_key_stable [of "\<lambda>x. - score x" "- s" ms] by (simp add: sort_by_score_def)

lemma slice_to_prefix: "prefix (slice_to xs n) xs"
  by (simp add: slice_to_def take_is_prefix)


text \<open>
  C3. The mappings that \<open>_map_entity_to_docs\<close> returns for an entity are sorted by
  score in non-increasing order; for every score, the mappings of that score are, in
  their order, the mappings of a subsequence of the docs as supplied (ties keep the
  order of the docs); and the list has at most \<open>max_mappings_per_entity\<close> elements,
  the cap being a count, that is, not negative.
\<close>

theorem entity_mappings_sorted_stable_capped:
  assumes "map_entity_to_docs entity docs request = Inr ms"
  shows "sorted_wrt (\<lambda>a b. score a \<ge> score b) ms \<and>
         (\<forall>s. \<exists>ds. subseq ds docs \<and>
                 map Inr (filter (\<lambda>m. score m = s) ms)
                   = map (\<lambda>d. calculate_mapping_score entity d request) ds) \<and>
         (0 \<le> max_mappings_per_entity request \<longrightarrow>
            int (length ms) \<le> max_mappings_per_entity request)"
proof -
  from assms obtain cs where cs: "candidate_loop entity request [] docs = Inr cs"
    and ms: "ms = slice_to (sort_by_score cs) (max_mappings_per_entity request)"
    by (auto simp: map_entity_to_docs_def split: sum.splits)
  have pre: "prefix ms (sort_by_score cs)"
    unfolding ms by (rule slice_to_prefix)
  have sorted: "sorted_wrt (\<lambda>a b. score a \<ge> score b) ms"
    using sort_by_score_sorted [of cs] by (simp add: ms slice_to_def)
  have stable: "\<exists>ds. subseq ds docs \<and>
      map Inr (filter (\<lambda>m. score m = s) ms) = map (\<lambda>d. calculate_mapping_score entity d request) ds"
    for s
  proof -
    have "prefix (filter (\<lambda>m. score m = s) ms) (filter (\<lambda>m. score m = s) (sort_by_score cs))"
      using pre by (rule filter_mono_prefix)
    then have "subseq (filter (\<lambda>m. score m = s) ms) (filter (\<lambda>m. score m = s) cs)"
      by (auto simp: sort_by_score_stable)
    then have "subseq (filter (\<lambda>m. score m = s) ms) cs"
      using subseq_filter_left subseq_order.order_trans by blast
    then have "subseq (map Inr (filter (\<lambda>m. score m = s) ms)) (map Inr cs)"
      by (rule subseq_map)
    moreover from candidate_loop_order [OF cs]
    have "subseq (map Inr cs) (map (\<lambda>d. calculate_mapping_score entity d request) docs)" by simp
    ultimately have "subseq (map Inr (filter (\<lambda>m. score m = s) ms))
        (map (\<lambda>d. calculate_mapping_score entity d request) docs)"
      using subseq_order.order_trans by blast
    from subseq_map_preimage [OF this] show ?thesis by blast
  qed
  have "int (length ms) \<le> max_mappings_per_entity request"
    if "0 \<le> max_mappings_per_entity request"
    using that by (simp add: ms slice_to_def)
  with sorted stable show ?thesis by blast
qed


theorem entity_mappings_sorted_stable_capped_witness:
  "map_entity_to_docs user_entity [user_doc, manual_doc, readme_doc] (heuristics_request 3)
     = Inr [readme_heuristic_mapping, example_mapping ''e1'' ''d1'' ''User Guide'' 0.4 ''mentions'',
            manual_mapping] \<and>
   0 \<le> max_mappings_per_entity (heuristics_request 3) \<and>
   int (length [readme_heuristic_mapping, example_mapping ''e1'' ''d1'' ''User Guide'' 0.4 ''mentions'',
                manual_mapping]) \<le> max_mappings_per_entity (heuristics_request 3) \<and>
   sorted_wrt (\<lambda>a b. score a \<ge> score b)
     [readme_heuristic_mapping, example_mapping ''e1'' ''d1'' ''User Guide'' 0.4 ''mentions'',
      manual_mapping] \<and>
   map Inr (filter (\<lambda>m. score m = 0.4)
     [readme_heuristic_mapping, example_mapping ''e1'' ''d1'' ''User Guide'' 0.4 ''mentions'',
      manual_mapping])
     = map (\<lambda>d. calculate_mapping_score user_entity d (heuristics_request 3)) [user_doc, manual_doc]"
proof -
  have cap: "0 \<le> max_mappings_per_entity (heuristics_request 3)"
    by (simp add: heuristics_request_def)
  from entity_mappings_sorted_stable_capped [OF rank_three_docs] cap
  have "sorted_wrt (\<lambda>a b. score a \<ge> score b)
     [readme_heuristic_mapping, example_mapping ''e1'' ''d1'' ''User Guide'' 0.4 ''mentions'',
      manual_mapping]"
    and "int (length [readme_heuristic_mapping, example_mapping ''e1'' ''d1'' ''User Guide'' 0.4 ''mentions'',
                manual_mapping]) \<le> max_mappings_per_entity (heuristics_request 3)"
    by blast+
  moreover have "map Inr (filter (\<lambda>m. score m = 0.4)
     [readme_heuristic_mapping, example_mapping ''e1'' ''d1'' ''User Guide'' 0.4 ''mentions'',
      manual_mapping])
     = map (\<lambda>d. calculate_mapping_score user_entity d (heuristics_request 3)) [user_doc, manual_doc]"
    by (simp add: score_user_guide score_user_manual)
       (simp add: readme_heuristic_mapping_def manual_mapping_def example_mapping_def)
  ultimately show ?thesis using rank_three_docs cap by simp
qed

subsection \<open>The embedding generator\<close>










subsection \<open>The loop over the entities\<close>

text \<open>
  C1. The claim: every entity is processed, and an entity that reaches the cap
  \<open>max_mappings_per_entity\<close> never curtails the entities after it. The loop of
  \<open>generate_mappings\<close> leaves at the first entity whose list reaches the cap. With two
  entities that both match the one doc and a cap of 1, only the mapping of the first
  entity is returned, although the second entity has a mapping of its own.
\<close>

theorem cap_reached_stops_all_entities:
  "fst (generate_mappings offline_world fresh_generator [user_entity, guide_entity] [user_doc]
          (heuristics_request 1))
     = Inr [example_mapping ''e1'' ''d1'' ''User Guide'' 0.4 ''mentions''] \<and>
   map_entity_to_docs guide_entity [user_doc] (heuristics_request 1)
     = Inr [example_mapping ''e2'' ''d1'' ''User Guide'' 0.4 ''mentions'']"
  by (simp add: generate_mappings_def map_entity_to_docs_def score_user_guide score_guide_guide
        sort_by_score_def slice_to_def)
     (simp add: example_defs)

subsection \<open>An exception in one pair\<close>

lemma embed_entities_primed:
  "embed_entities w g es = (es', g') \<Longrightarrow> list_all2 primed_entity es es'"
proof (induction es arbitrary: g es' g')
  case Nil
  then show ?case by simp
next
  case (Cons e es)
  then show ?case
    by (auto simp: primed_entity_def Let_def split: if_splits prod.splits)
qed

lemma embed_docs_primed:
  "embed_docs w g ds = (ds', g') \<Longrightarrow> list_all2 primed_doc ds ds'"
proof (induction ds arbitrary: g ds' g')
  case Nil
  then show ?case by simp
next
  case (Cons d ds)
  then show ?case
    by (auto simp: primed_doc_def Let_def split: if_splits prod.splits)
qed

lemma primed_pair_still_raises:
  assumes "calculate_mapping_score e d r = Inl err"
    and "primed_entity e e'" and "primed_doc d d'"
  shows "calculate_mapping_score e' d' r = Inl err"
proof -
  obtain x y where e': "e' = e\<lparr>ce_embedding := x\<rparr>" and d': "d' = d\<lparr>de_embedding := y\<rparr>"
    and x: "vec (ce_embedding e) \<noteq> [] \<longrightarrow> x = ce_embedding e"
    and y: "vec (de_embedding d) \<noteq> [] \<longrightarrow> y = de_embedding d"
  proof -
    from assms(2) obtain x where "e' = e\<lparr>ce_embedding := x\<rparr>"
      "vec (ce_embedding e) \<noteq> [] \<longrightarrow> x = ce_embedding e"
      unfolding primed_entity_def by (metis CodeEntity.surjective CodeEntity.update_convs(8))
    moreover from assms(3) obtain y where "d' = d\<lparr>de_embedding := y\<rparr>"
      "vec (de_embedding d) \<noteq> [] \<longrightarrow> y = de_embedding d"
      unfolding primed_doc_def by (metis DocEntity.surjective DocEntity.update_convs(6))
    ultimately show ?thesis using that by blast
  qed
  show ?thesis
  proof (cases "use_heuristics r \<and> isl (calculate_heuristics_score e d)")
    case True
    then obtain er where er: "calculate_heuristics_score e d = Inl er"
      by (cases "calculate_heuristics_score e d") auto
    with True assms(1) have "er = err"
      by (simp add: calculate_mapping_score_def)
    with True er show ?thesis
      by (simp add: calculate_mapping_score_def e' d' heuristics_ignore_embeddings)
  next
    case False
    with assms(1) have emb: "use_embeddings r" "vec (ce_embedding e) \<noteq> []" "vec (de_embedding d) \<noteq> []"
      by (auto simp: calculate_mapping_score_def Let_def split: if_splits sum.splits prod.splits)
    with x y e' d' have "e' = e" "d' = d" by simp_all
    with assms(1) show ?thesis by simp
  qed
qed

lemma list_all2_memD: "list_all2 P xs ys \<Longrightarrow> x \<in> set xs \<Longrightarrow> \<exists>y \<in> set ys. P x y"
  by (induction rule: list_all2_induct) auto

lemma candidate_loop_raises:
  "d \<in> set docs \<Longrightarrow> calculate_mapping_score e d r = Inl err \<Longrightarrow>
     \<exists>err'. candidate_loop e r acc docs = Inl err'"
proof (induction docs arbitrary: acc)
  case Nil
  then show ?case by simp
next
  case (Cons d' docs)
  show ?case
  proof (cases "calculate_mapping_score e d' r")
    case (Inl a)
    then show ?thesis by simp
  next
    case (Inr m)
    with Cons.prems have "d \<in> set docs" by auto
    from Cons.IH [OF this Cons.prems(2)] Inr show ?thesis by simp
  qed
qed

lemma map_entity_to_docs_raises:
  assumes "d \<in> set docs" and "calculate_mapping_score e d r = Inl err"
  shows "\<exists>err'. map_entity_to_docs e docs r = Inl err'"
proof -
  from candidate_loop_raises [OF assms] obtain err' where "candidate_loop e r [] docs = Inl err'"
    by blast
  then show ?thesis by (simp add: map_entity_to_docs_def)
qed

text \<open>
  C4 (amended). When scoring one pair of an entity and a doc raises, nothing catches
  the exception for that pair: \<open>_map_entity_to_docs\<close> raises for the entity,
  \<open>generate_mappings\<close> raises when its loop comes to the entity (here the first of the
  batch), and \<open>handle_map_request\<close> catches the exception for the whole request and
  publishes no result.
\<close>

theorem pair_exception_aborts_request:
  assumes "doc \<in> set docs" and "calculate_mapping_score entity doc request = Inl err"
  shows "(\<exists>e. map_entity_to_docs entity docs request = Inl e) \<and>
         (\<exists>e. fst (generate_mappings w g (entity # entities) docs request) = Inl e) \<and>
         handle_map_request w g (entity # entities) docs request = None"
proof -
  have one: "\<exists>e. map_entity_to_docs entity docs request = Inl e"
    using assms by (rule map_entity_to_docs_raises)
  have all: "\<exists>e. fst (generate_mappings w g (entity # entities) docs request) = Inl e"
  proof (cases "use_embeddings request")
    case False
    with one show ?thesis by (auto simp: generate_mappings_def)
  next
    case True
    obtain es' g1 where es': "embed_entities w g (entity # entities) = (es', g1)"
      by (cases "embed_entities w g (entity # entities)")
    obtain ds' g2 where ds': "embed_docs w g1 docs = (ds', g2)"
      by (cases "embed_docs w g1 docs")
    from embed_entities_primed [OF es'] obtain e' rest where
      es'_eq: "es' = e' # rest" and pe: "primed_entity entity e'"
      by (auto simp: list_all2_Cons1)
    from list_all2_memD [OF embed_docs_primed [OF ds'] assms(1)] obtain d' where
      d': "d' \<in> set ds'" and pd: "primed_doc doc d'"
      by blast
    from primed_pair_still_raises [OF assms(2) pe pd]
    have "calculate_mapping_score e' d' request = Inl err" .
    from map_entity_to_docs_raises [OF d' this] obtain err' where
      "map_entity_to_docs e' ds' request = Inl err'" by blast
    with True es' ds' es'_eq show ?thesis
      by (simp add: generate_mappings_def generate_embeddings_def)
  qed
  then have "handle_map_request w g (entity # entities) docs request = None"
    by (auto simp: handle_map_request_def)
  with one all show ?thesis by blast
qed

lemma score_user_snake:
  "calculate_mapping_score user_entity snake_doc (heuristics_request cap) = Inl TypeError"
  by (simp add: calculate_mapping_score_def heuristics_user_snake heuristics_request_def)

lemma rank_snake_then_guide:
  "map_entity_to_docs user_entity [snake_doc, user_doc] (heuristics_request 5) = Inl TypeError"
  by (simp add: map_entity_to_docs_def score_user_snake)

lemma run_snake_then_guide:
  "fst (generate_mappings offline_world fresh_generator [user_entity] [snake_doc, user_doc]
          (heuristics_request 5)) = Inl TypeError"
  by (simp add: generate_mappings_def rank_snake_then_guide)
     (simp add: heuristics_request_def)

theorem pair_exception_aborts_request_witness:
  "snake_doc \<in> set [snake_doc, user_doc] \<and>
   calculate_mapping_score user_entity snake_doc (heuristics_request 5) = Inl TypeError \<and>
   map_entity_to_docs user_entity [snake_doc, user_doc] (heuristics_request 5) = Inl TypeError \<and>
   handle_map_request offline_world fresh_generator [user_entity] [snake_doc, user_doc]
     (heuristics_request 5) = None"
proof -
  have mem: "snake_doc \<in> set [snake_doc, user_doc]" by simp
  from pair_exception_aborts_request [OF mem score_user_snake,
      where w = offline_world and g = fresh_generator and entities = "[]"]
  have "handle_map_request offline_world fresh_generator [user_entity] [snake_doc, user_doc]
     (heuristics_request 5) = None" by blast
  with mem score_user_snake rank_snake_then_guide show ?thesis by simp
qed

text \<open>
  C4 as stated: the raising pair is left out and the other pairs are kept. With
  the docs \<open>get_user\<close> (on whose title word extraction raises) and \<open>User Guide\<close>, the
  mapping of the second doc is lost with the request.
\<close>

theorem pair_exception_not_isolated_counterexample:
  "calculate_mapping_score user_entity snake_doc (heuristics_request 5) = Inl TypeError \<and>
   calculate_mapping_score user_entity user_doc (heuristics_request 5)
     = Inr (example_mapping ''e1'' ''d1'' ''User Guide'' 0.4 ''mentions'') \<and>
   map_entity_to_docs user_entity [user_doc] (heuristics_request 5)
     = Inr [example_mapping ''e1'' ''d1'' ''User Guide'' 0.4 ''mentions''] \<and>
   map_entity_to_docs user_entity [snake_doc, user_doc] (heuristics_request 5) = Inl TypeError \<and>
   fst (generate_mappings offline_world fresh_generator [user_entity] [snake_doc, user_doc]
          (heuristics_request 5)) = Inl TypeError \<and>
   handle_map_request offline_world fresh_generator [user_entity] [snake_doc, user_doc]
     (heuristics_request 5) = None"
  by (simp add: score_user_snake score_user_guide rank_snake_then_guide run_snake_then_guide
        handle_map_request_def map_entity_to_docs_def sort_by_score_def slice_to_def)
     (simp add: heuristics_request_def example_mapping_def)

subsection \<open>Names of short tokens\<close>

lemma lower_char_not_upper: "\<not> is_upper (lower_char c)"
proof -
  have "code_point c < 256" by (simp add: code_point_def)
  then show ?thesis
    by (auto simp: lower_char_def is_upper_def code_point_def Let_def)
qed

lemma findall_camel_no_upper: "\<forall>c \<in> set s. \<not> is_upper c \<Longrightarrow> findall_camel s = []"
  by (induction s) simp_all

lemma findall_camel_lower: "findall_camel (lower s) = []"
  by (rule findall_camel_no_upper) (simp add: lower_def lower_char_not_upper)

lemma clean_words_short:
  "\<forall>w \<in> set ws. length (filter is_ascii_alnum w) \<le> 2 \<Longrightarrow> clean_words acc (map Str ws) = Inr acc"
  by (induction ws arbitrary: acc) (simp_all add: clean_word_def lower_def)

lemma extract_words_none:
  assumes "findall_snake (lower n) = []"
    and "\<forall>w \<in> set (findall_word (lower n)). length (filter is_ascii_alnum w) \<le> 2"
  shows "extract_words (lower n) = Inr []"
  using clean_words_short [OF assms(2), of "[]"]
  by (simp add: extract_words_def findall_camel_lower assms(1))

lemma heading_loop_no_entity_words:
  "\<forall>h \<in> set hs. \<exists>hw. extract_words (lower (heading_text h)) = Inr hw \<Longrightarrow>
     heading_loop {} acc hs = Inr acc"
  by (induction hs arbitrary: acc) auto

text \<open>
  C10 (amended). Word extraction drops a cleaned token of at most two characters. So
  for every entity name in which the third pattern finds no pair and every run of word
  characters keeps at most two ASCII letters or digits (as in \<open>id\<close> and \<open>go\<close>), the
  name similarity is 0 against the name itself and against every title, and the heading
  similarity is 0 against every list of headings, as long as word extraction does not
  raise on the title or on a heading.
\<close>

theorem short_tokens_score_zero:
  assumes "findall_snake (lower entity_name) = []"
    and "\<forall>w \<in> set (findall_word (lower entity_name)). length (filter is_ascii_alnum w) \<le> 2"
  shows "calculate_name_similarity entity_name entity_name = Inr 0 \<and>
         (\<forall>tw. extract_words (lower doc_title) = Inr tw \<longrightarrow>
            calculate_name_similarity entity_name doc_title = Inr 0) \<and>
         ((\<forall>h \<in> set hs. \<exists>hw. extract_words (lower (heading_text h)) = Inr hw) \<longrightarrow>
            calculate_heading_similarity entity_name hs = Inr 0)"
proof -
  note none = extract_words_none [OF assms]
  have "calculate_name_similarity entity_name entity_name = Inr 0"
    by (simp add: calculate_name_similarity_def none)
  moreover have "calculate_name_similarity entity_name doc_title = Inr 0"
    if "extract_words (lower doc_title) = Inr tw" for tw
    using that by (simp add: calculate_name_similarity_def none)
  moreover have "calculate_heading_similarity entity_name hs = Inr 0"
    if "\<forall>h \<in> set hs. \<exists>hw. extract_words (lower (heading_text h)) = Inr hw"
    using heading_loop_no_entity_words [OF that]
    by (simp add: calculate_heading_similarity_def none)
  ultimately show ?thesis by blast
qed

lemma id_name_tokens:
  "findall_snake (lower ''id'') = [] \<and> findall_word (lower ''id'') = [''id''] \<and>
   extract_words (lower ''id'') = Inr []"
  by code_simp

theorem short_tokens_score_zero_witness:
  "findall_snake (lower ''id'') = [] \<and>
   findall_word (lower ''id'') = [''id''] \<and> length (filter is_ascii_alnum ''id'') \<le> 2 \<and>
   extract_words (lower ''id'') = Inr [] \<and>
   calculate_name_similarity ''id'' ''id'' = Inr 0 \<and>
   calculate_heading_similarity ''id'' [\<lparr>heading_text = ''id'', heading_anchor = None\<rparr>] = Inr 0"
proof -
  have snake: "findall_snake (lower ''id'') = []"
    and word: "findall_word (lower ''id'') = [''id'']"
    and ex: "extract_words (lower ''id'') = Inr []"
    using id_name_tokens by simp_all
  have len: "length (filter is_ascii_alnum ''id'') \<le> 2" by simp
  have short: "\<forall>w \<in> set (findall_word (lower ''id'')). length (filter is_ascii_alnum w) \<le> 2"
    using word len by simp
  have hs: "\<forall>h \<in> set [\<lparr>heading_text = ''id'', heading_anchor = None\<rparr>].
      \<exists>hw. extract_words (lower (heading_text h)) = Inr hw"
    using ex by simp
  from short_tokens_score_zero [OF snake short, of "''id''" "[\<lparr>heading_text = ''id'', heading_anchor = None\<rparr>]"] hs
  have "calculate_name_similarity ''id'' ''id'' = Inr 0"
    and "calculate_heading_similarity ''id'' [\<lparr>heading_text = ''id'', heading_anchor = None\<rparr>] = Inr 0"
    by blast+
  with snake word len ex show ?thesis by simp
qed

text \<open>
  C10 as stated names \<open>do_it\<close> among these entities. Its one run of word
  characters is \<open>do_it\<close>, cleaned to the four-character token \<open>doit\<close>, and the third
  pattern finds the pair \<open>(do, it)\<close>, on which the cleaning loop raises: against the
  identical title and heading the similarities are not 0.
\<close>

theorem do_it_tokens_counterexample:
  "findall_word (lower ''do_it'') = [''do_it''] \<and>
   clean_word ''do_it'' = ''doit'' \<and>
   findall_snake (lower ''do_it'') = [(''do'', ''it'')] \<and>
   calculate_name_similarity ''do_it'' ''do_it'' = Inl TypeError \<and>
   calculate_heading_similarity ''do_it'' [\<lparr>heading_text = ''do_it'', heading_anchor = None\<rparr>]
     = Inl TypeError"
  by code_simp

subsection \<open>The worked scenario of the name similarity\<close>

text \<open>
  C2. For the entity named \<open>getUser\<close> and the doc titled \<open>Get User Guide\<close> (no path
  overlap, no signature, no headings) the claim expects a name similarity of 1.0 and a
  heuristic score of 0.4. The source lower-cases the name before the patterns run, so
  the camel-case pattern finds nothing and the only token is \<open>getuser\<close>: the name
  similarity and the heuristic score are 0. Only the confidence is as claimed.
\<close>

theorem getUser_scenario_scores_zero:
  "extract_words (lower ''getUser'') = Inr [''getuser''] \<and>
   extract_words (lower ''Get User Guide'') = Inr [''get'', ''user'', ''guide''] \<and>
   calculate_name_similarity ''getUser'' ''Get User Guide'' = Inr 0 \<and>
   calculate_heuristics_score getUser_entity guide_doc = Inr (0, ''low'')"
  by code_simp

end
